theory Spec2Isabelle
  imports Main "HOL-Library.Char_ord" "HOL-Library.List_Lexorder" "HOL-Library.AList"
begin

section \<open>Python strings\<close>

text \<open>
  A Python \<open>str\<close> is modelled as \<^typ>\<open>string\<close>, the list of its code points; a
  \<^typ>\<open>char\<close> has eight bits, so the model covers code points below 256. The order on
  characters (\<open>HOL-Library.Char_ord\<close>) is the order of the code points, and the order on
  strings (\<open>HOL-Library.List_Lexorder\<close>) is lexicographic with a proper prefix first, as
  Python compares \<open>str\<close> values.
\<close>

text \<open>\<open>s.startswith(p)\<close>\<close>

definition startswith :: "string \<Rightarrow> string \<Rightarrow> bool" where
  "startswith s p \<longleftrightarrow> take (length p) s = p"

text \<open>\<open>" " * n\<close>\<close>

definition spaces :: "nat \<Rightarrow> string" where
  "spaces n = replicate n (CHR '' '')"

text \<open>
  \<open>c.isspace()\<close> on the code points below 256: tab, line feed, vertical tab, form feed,
  carriage return, the four separators 0x1C to 0x1F, space, NEL (0x85) and the no-break
  space (0xA0). \<open>str.strip\<close>, \<open>lstrip\<close> and \<open>rstrip\<close> without argument remove these.
\<close>

definition is_space :: "char \<Rightarrow> bool" where
  "is_space c \<longleftrightarrow> c \<in> set [CHR 0x09, CHR 0x0A, CHR 0x0B, CHR 0x0C, CHR 0x0D,
       CHR 0x1C, CHR 0x1D, CHR 0x1E, CHR 0x1F, CHR 0x20, CHR 0x85, CHR 0xA0]"

definition lstrip :: "string \<Rightarrow> string" where
  "lstrip s = dropWhile is_space s"

definition rstrip :: "string \<Rightarrow> string" where
  "rstrip s = rev (dropWhile is_space (rev s))"

definition strip :: "string \<Rightarrow> string" where
  "strip s = lstrip (rstrip s)"

section \<open>The header pattern\<close>

text \<open>
  \<^verbatim>\<open>_header_pat = re.compile(
      r"^// ([A-Z][A-Za-z0-9_&-]*( ?[A-Z][A-Za-z0-9_&-]*)?)(\([^)]*\))?:( .*)?$")\<close>

  The pattern is matched from the start of the line (\<open>_header_pat.match(line)\<close>). The
  matcher below follows the pattern piece by piece, each piece taken greedily; what it
  returns are the groups 1, 3 and 4 that \<open>_parse_block\<close> reads (group 2 lies inside group 1
  and is never read). An optional group that did not take part in the match is \<open>None\<close>.
\<close>

definition is_upper :: "char \<Rightarrow> bool" where
  "is_upper c \<longleftrightarrow> CHR ''A'' \<le> c \<and> c \<le> CHR ''Z''"

text \<open>The character class \<^verbatim>\<open>[A-Za-z0-9_&-]\<close>.\<close>

definition is_word_char :: "char \<Rightarrow> bool" where
  "is_word_char c \<longleftrightarrow> is_upper c \<or> (CHR ''a'' \<le> c \<and> c \<le> CHR ''z'')
      \<or> (CHR ''0'' \<le> c \<and> c \<le> CHR ''9'') \<or> c = CHR ''_'' \<or> c = CHR ''&'' \<or> c = CHR ''-''"

text \<open>\<^verbatim>\<open>[A-Z][A-Za-z0-9_&-]*\<close> at the front of \<open>s\<close>: the word and what follows it.\<close>

definition match_word :: "string \<Rightarrow> (string \<times> string) option" where
  "match_word s =
     (case s of
        [] \<Rightarrow> None
      | c # r \<Rightarrow> if is_upper c then Some (c # takeWhile is_word_char r, dropWhile is_word_char r)
                 else None)"

text \<open>\<^verbatim>\<open>( ?[A-Z][A-Za-z0-9_&-]*)?\<close>: the optional second word, with the space it may begin with.\<close>

definition match_word2 :: "string \<Rightarrow> string \<times> string" where
  "match_word2 s =
     (if startswith s '' '' then
        (case match_word (drop 1 s) of
           None \<Rightarrow> ([], s)
         | Some (w, r) \<Rightarrow> (CHR '' '' # w, r))
      else
        (case match_word s of
           None \<Rightarrow> ([], s)
         | Some (w, r) \<Rightarrow> (w, r)))"

text \<open>\<^verbatim>\<open>(\([^)]*\))?\<close>: group 3 with its parentheses, and what follows it.\<close>

definition match_meta :: "string \<Rightarrow> string option \<times> string" where
  "match_meta s =
     (case s of
        [] \<Rightarrow> (None, s)
      | c # r \<Rightarrow>
          if c = CHR ''('' then
            (case dropWhile (\<lambda>x. x \<noteq> CHR '')'') r of
               [] \<Rightarrow> (None, s)
             | _ # r' \<Rightarrow> (Some (CHR ''('' # takeWhile (\<lambda>x. x \<noteq> CHR '')'') r @ '')''), r'))
          else (None, s))"

text \<open>
  \<^verbatim>\<open>( .*)?$\<close> on what follows the colon. The dot matches every character but the line
  feed, and \<open>$\<close> matches at the end of the string or just before a line feed that ends it.
  The result is \<open>None\<close> when the pattern fails, else group 4.
\<close>

definition match_tail :: "string \<Rightarrow> string option option" where
  "match_tail r =
     (let t = (if r \<noteq> [] \<and> last r = CHR 0x0A then butlast r else r) in
      case t of
        [] \<Rightarrow> Some None
      | c # u \<Rightarrow> if c = CHR '' '' \<and> CHR 0x0A \<notin> set u then Some (Some t) else None)"

definition header_pat_match :: "string \<Rightarrow> (string \<times> string option \<times> string option) option" where
  "header_pat_match line =
     (if \<not> startswith line ''// '' then None
      else
        case match_word (drop 3 line) of
          None \<Rightarrow> None
        | Some (w1, r1) \<Rightarrow>
            (case match_word2 r1 of (w2, r2) \<Rightarrow>
             case match_meta r2 of (g3, r3) \<Rightarrow>
             case r3 of
               [] \<Rightarrow> None
             | c # r4 \<Rightarrow>
                 if c = CHR '':'' then
                   (case match_tail r4 of
                      None \<Rightarrow> None
                    | Some g4 \<Rightarrow> Some (w1 @ w2, g3, g4))
                 else None))"

text \<open>
  Lines 228 to 230 of \<open>_parse_block\<close>:
  \<^verbatim>\<open>title = match.group(1)
  meta = match.group(3)[1:-1] if match.group(3) else ""
  subtitle = match.group(4).strip() if match.group(4) else ""\<close>
\<close>

definition header_fields :: "string \<times> string option \<times> string option \<Rightarrow> string \<times> string \<times> string" where
  "header_fields m =
     (case m of (g1, g3, g4) \<Rightarrow>
        (g1,
         (case g3 of Some g \<Rightarrow> butlast (drop 1 g) | None \<Rightarrow> []),
         (case g4 of Some g \<Rightarrow> strip g | None \<Rightarrow> [])))"

text \<open>The header matcher: the triple \<open>(title, meta, subtitle)\<close> of a line, or no match.\<close>

definition header_match :: "string \<Rightarrow> (string \<times> string \<times> string) option" where
  "header_match line = map_option header_fields (header_pat_match line)"

subsection \<open>The shape of a header line\<close>

text \<open>
  The lines the pattern accepts, written out: \<open>// \<close>, a capitalised word, optionally a
  space and a second capitalised word, optionally a parenthesised text without \<open>)\<close>, a
  colon, optionally a space and a text without line feed, optionally one final line feed.
  (The pattern also lets the second word follow the first without a space; two such
  words are one capitalised word, so \<open>word1\<close> covers them.)
\<close>

record header_parts =
  word1 :: string
  word2 :: "string option"
  metadata :: "string option"
  rest :: "string option"
  line_feed :: bool

definition cap_word :: "string \<Rightarrow> bool" where
  "cap_word w = (case w of [] \<Rightarrow> False | c # r \<Rightarrow> is_upper c \<and> list_all is_word_char r)"

definition wf_parts :: "header_parts \<Rightarrow> bool" where
  "wf_parts p \<longleftrightarrow> cap_word (word1 p)
     \<and> (case word2 p of None \<Rightarrow> True | Some w \<Rightarrow> cap_word w)
     \<and> (case metadata p of None \<Rightarrow> True | Some m \<Rightarrow> CHR '')'' \<notin> set m)
     \<and> (case rest p of None \<Rightarrow> True | Some s \<Rightarrow> CHR 0x0A \<notin> set s)"

definition title_of :: "header_parts \<Rightarrow> string" where
  "title_of p = word1 p @ (case word2 p of None \<Rightarrow> [] | Some w \<Rightarrow> CHR '' '' # w)"

definition meta_text :: "header_parts \<Rightarrow> string" where
  "meta_text p = (case metadata p of None \<Rightarrow> [] | Some m \<Rightarrow> ''('' @ m @ '')'')"

definition end_text :: "header_parts \<Rightarrow> string" where
  "end_text p = (if line_feed p then [CHR 0x0A] else [])"

definition render :: "header_parts \<Rightarrow> string" where
  "render p = ''// '' @ title_of p @ meta_text p @ '':''
       @ (case rest p of None \<Rightarrow> [] | Some s \<Rightarrow> CHR '' '' # s) @ end_text p"

definition triple_of :: "header_parts \<Rightarrow> string \<times> string \<times> string" where
  "triple_of p = (title_of p, (case metadata p of None \<Rightarrow> [] | Some m \<Rightarrow> m),
       (case rest p of None \<Rightarrow> [] | Some s \<Rightarrow> strip s))"

text \<open>
  The header grammar as the specification words it: the subtitle is the rest of the line
  after the colon, whatever it starts with.
\<close>

definition spec_line :: "header_parts \<Rightarrow> string" where
  "spec_line p = ''// '' @ title_of p @ meta_text p @ '':''
       @ (case rest p of None \<Rightarrow> [] | Some s \<Rightarrow> s) @ end_text p"

subsection \<open>The matcher accepts exactly these lines\<close>

lemma not_word_chars: "\<not> is_word_char (CHR '' '')" "\<not> is_word_char (CHR ''('')" "\<not> is_word_char (CHR '':'')"
  "\<not> is_upper (CHR '' '')" "\<not> is_upper (CHR ''('')" "\<not> is_upper (CHR '':'')"
  by (simp_all add: is_word_char_def is_upper_def)

lemma is_space_simps: "is_space (CHR '' '')" "is_space (CHR 0x0A)"
  by (simp_all add: is_space_def)

lemma strip_space_Cons: "strip (CHR '' '' # s) = strip s"
proof (cases "\<forall>x\<in>set s. is_space x")
  case True
  then have a: "dropWhile is_space (rev s) = []" by simp
  from True have "dropWhile is_space (rev s @ '' '') = dropWhile is_space '' ''"
    by (intro dropWhile_append2) simp
  then have b: "dropWhile is_space (rev s @ '' '') = []" by (simp add: is_space_simps)
  show ?thesis unfolding strip_def rstrip_def lstrip_def rev.simps a b ..
next
  case False
  then obtain x where "x \<in> set (rev s)" "\<not> is_space x" by auto
  then have "dropWhile is_space (rev s @ '' '') = dropWhile is_space (rev s) @ '' ''"
    by (rule dropWhile_append1)
  then show ?thesis by (simp add: strip_def rstrip_def lstrip_def is_space_simps)
qed

lemma match_word_app:
  assumes "cap_word w" and "r = [] \<or> \<not> is_word_char (hd r)"
  shows "match_word (w @ r) = Some (w, r)"
proof -
  from assms(1) obtain c u where w: "w = c # u" and c: "is_upper c" and u: "\<forall>x\<in>set u. is_word_char x"
    by (auto simp: cap_word_def list_all_iff split: list.splits)
  from assms(2) have t: "takeWhile is_word_char r = []" and d: "dropWhile is_word_char r = r"
    by (cases r; simp)+
  from u have "takeWhile is_word_char (u @ r) = u @ takeWhile is_word_char r"
    by (simp add: takeWhile_append2)
  moreover from u have "dropWhile is_word_char (u @ r) = dropWhile is_word_char r"
    by (simp add: dropWhile_append2)
  ultimately show ?thesis using w c t d by (simp add: match_word_def)
qed

lemma match_word_Some:
  assumes "match_word s = Some (w, r)"
  shows "s = w @ r \<and> cap_word w \<and> (r = [] \<or> \<not> is_word_char (hd r))"
proof -
  from assms obtain c u where s: "s = c # u" and c: "is_upper c"
    and w: "w = c # takeWhile is_word_char u" and r: "r = dropWhile is_word_char u"
    by (auto simp: match_word_def split: list.splits if_splits)
  have "list_all is_word_char (takeWhile is_word_char u)"
    by (simp add: list_all_iff) (meson set_takeWhileD)
  moreover have "r = [] \<or> \<not> is_word_char (hd r)" unfolding r
    by (metis hd_dropWhile)
  ultimately show ?thesis using s c w r by (simp add: cap_word_def)
qed


lemma upper_is_word_char: "is_upper c \<Longrightarrow> is_word_char c"
  by (simp add: is_word_char_def)

lemma match_word_None: "s = [] \<or> \<not> is_upper (hd s) \<Longrightarrow> match_word s = None"
  by (cases s) (auto simp: match_word_def)

lemma match_word2_Some:
  assumes "cap_word w" and "r = [] \<or> \<not> is_word_char (hd r)"
  shows "match_word2 (CHR '' '' # w @ r) = (CHR '' '' # w, r)"
  using match_word_app [OF assms] by (simp add: match_word2_def startswith_def)

lemma match_word2_None:
  assumes "r = [] \<or> (hd r \<noteq> CHR '' '' \<and> \<not> is_upper (hd r))"
  shows "match_word2 r = ([], r)"
proof -
  from assms have "\<not> startswith r '' ''" by (cases r) (auto simp: startswith_def)
  moreover from assms have "match_word r = None" by (intro match_word_None) auto
  ultimately show ?thesis by (simp add: match_word2_def)
qed

lemma match_word2_cases:
  assumes "match_word2 r1 = (w2, r2)" and "r1 = [] \<or> \<not> is_word_char (hd r1)"
  shows "(w2 = [] \<and> r2 = r1) \<or> (\<exists>w. w2 = CHR '' '' # w \<and> cap_word w \<and> r1 = w2 @ r2)"
proof (cases "startswith r1 '' ''")
  case True
  then obtain u where r1: "r1 = CHR '' '' # u" by (cases r1) (auto simp: startswith_def)
  show ?thesis
  proof (cases "match_word u")
    case None
    with True r1 assms(1) show ?thesis by (simp add: match_word2_def)
  next
    case (Some a)
    obtain w r where a: "a = (w, r)" by (cases a)
    from Some a match_word_Some have "u = w @ r \<and> cap_word w \<and> (r = [] \<or> \<not> is_word_char (hd r))"
      by blast
    moreover from True r1 assms(1) Some a have "w2 = CHR '' '' # w" "r2 = r"
      by (simp_all add: match_word2_def)
    ultimately show ?thesis using r1 by simp
  qed
next
  case False
  have "match_word r1 = None"
  proof (rule match_word_None)
    from assms(2) show "r1 = [] \<or> \<not> is_upper (hd r1)" using upper_is_word_char by blast
  qed
  with False assms(1) show ?thesis by (simp add: match_word2_def)
qed

lemma match_meta_Some:
  assumes "CHR '')'' \<notin> set m"
  shows "match_meta (CHR ''('' # m @ CHR '')'' # r) = (Some (CHR ''('' # m @ '')''), r)"
proof -
  from assms have "dropWhile (\<lambda>x. x \<noteq> CHR '')'') (m @ CHR '')'' # r) = CHR '')'' # r"
    by (induction m) auto
  moreover from assms have "takeWhile (\<lambda>x. x \<noteq> CHR '')'') (m @ CHR '')'' # r) = m"
    by (induction m) auto
  ultimately show ?thesis by (simp add: match_meta_def)
qed

lemma match_meta_None: "r = [] \<or> hd r \<noteq> CHR ''('' \<Longrightarrow> match_meta r = (None, r)"
  by (cases r) (auto simp: match_meta_def)

lemma match_meta_cases:
  assumes "match_meta r2 = (g3, r3)"
  shows "(g3 = None \<and> r3 = r2) \<or>
         (\<exists>m. g3 = Some (CHR ''('' # m @ '')'') \<and> CHR '')'' \<notin> set m \<and> r2 = CHR ''('' # m @ CHR '')'' # r3)"
proof (cases r2)
  case Nil
  with assms show ?thesis by (simp add: match_meta_def)
next
  case (Cons c r)
  show ?thesis
  proof (cases "c = CHR ''(''")
    case False
    with assms Cons show ?thesis by (simp add: match_meta_def)
  next
    case True
    show ?thesis
    proof (cases "dropWhile (\<lambda>x. x \<noteq> CHR '')'') r")
      case Nil
      with assms Cons True show ?thesis by (simp add: match_meta_def)
    next
      case d: (Cons y r')
      then have y: "y = CHR '')''" using hd_dropWhile [of "\<lambda>x. x \<noteq> CHR '')''" r] by auto
      let ?m = "takeWhile (\<lambda>x. x \<noteq> CHR '')'') r"
      have "r = ?m @ y # r'" using d takeWhile_dropWhile_id [of "\<lambda>x. x \<noteq> CHR '')''" r] by simp
      moreover have "CHR '')'' \<notin> set ?m" using set_takeWhileD by fastforce
      moreover from assms Cons True d have "g3 = Some (CHR ''('' # ?m @ '')'')" "r3 = r'"
        by (simp_all add: match_meta_def)
      ultimately show ?thesis using Cons True y by auto
    qed
  qed
qed

lemma match_tail_None_ok: "match_tail (if lf then [CHR 0x0A] else []) = Some None"
  by (simp add: match_tail_def)

lemma match_tail_Some_ok:
  assumes "CHR 0x0A \<notin> set s"
  shows "match_tail (CHR '' '' # s @ (if lf then [CHR 0x0A] else [])) = Some (Some (CHR '' '' # s))"
proof (cases lf)
  case True
  have "butlast (CHR '' '' # s @ [CHR 0x0A]) = CHR '' '' # s"
    using butlast_snoc [of "CHR '' '' # s" "CHR 0x0A"] by simp
  with True assms show ?thesis by (simp add: match_tail_def)
next
  case False
  have "last (CHR '' '' # s) \<noteq> CHR 0x0A"
  proof (cases s)
    case Nil then show ?thesis by simp
  next
    case (Cons a u)
    then have "last (CHR '' '' # s) \<in> set s" by simp
    with assms show ?thesis by metis
  qed
  with False assms show ?thesis by (simp add: match_tail_def)
qed

lemma match_tail_cases:
  assumes "match_tail r4 = Some g4"
  shows "\<exists>lf. (g4 = None \<and> r4 = (if lf then [CHR 0x0A] else [])) \<or>
          (\<exists>s. g4 = Some (CHR '' '' # s) \<and> CHR 0x0A \<notin> set s \<and> r4 = CHR '' '' # s @ (if lf then [CHR 0x0A] else []))"
proof -
  define lf where "lf \<longleftrightarrow> r4 \<noteq> [] \<and> last r4 = CHR 0x0A"
  define t where "t = (if lf then butlast r4 else r4)"
  have r4: "r4 = t @ (if lf then [CHR 0x0A] else [])"
  proof (cases lf)
    case True
    then have "butlast r4 @ [CHR 0x0A] = r4" using append_butlast_last_id [of r4] by (simp add: lf_def)
    with True show ?thesis by (simp add: t_def)
  next
    case False
    then show ?thesis by (simp add: t_def)
  qed
  have m: "match_tail r4 = (case t of [] \<Rightarrow> Some None
      | c # u \<Rightarrow> if c = CHR '' '' \<and> CHR 0x0A \<notin> set u then Some (Some t) else None)"
    unfolding match_tail_def t_def lf_def Let_def ..
  show ?thesis
  proof (cases t)
    case Nil
    with assms m have "g4 = None" by simp
    moreover from r4 Nil have "r4 = (if lf then [CHR 0x0A] else [])" by simp
    ultimately show ?thesis by blast
  next
    case (Cons c u)
    with assms m have "c = CHR '' ''" "CHR 0x0A \<notin> set u" "g4 = Some t"
      by (auto split: if_splits)
    moreover with r4 Cons have "r4 = CHR '' '' # u @ (if lf then [CHR 0x0A] else [])" by simp
    ultimately show ?thesis using Cons by blast
  qed
qed

lemma header_match_complete:
  assumes "wf_parts p"
  shows "header_match (render p) = Some (triple_of p)"
proof -
  define r4 where "r4 = (case rest p of None \<Rightarrow> [] | Some s \<Rightarrow> CHR '' '' # s) @ end_text p"
  define r3 where "r3 = CHR '':'' # r4"
  define r2 where "r2 = meta_text p @ r3"
  define w2 where "w2 = (case word2 p of None \<Rightarrow> [] | Some w \<Rightarrow> CHR '' '' # w)"
  define r1 where "r1 = w2 @ r2"
  define g3 where "g3 = (case metadata p of None \<Rightarrow> None | Some m \<Rightarrow> Some (CHR ''('' # m @ '')''))"
  define g4 where "g4 = (case rest p of None \<Rightarrow> None | Some s \<Rightarrow> Some (CHR '' '' # s))"
  have line: "render p = ''// '' @ word1 p @ r1"
    by (simp add: render_def title_of_def r1_def r2_def r3_def r4_def w2_def)
  have hd2: "r2 \<noteq> [] \<and> (hd r2 = CHR ''('' \<or> hd r2 = CHR '':'')"
    by (simp add: r2_def r3_def meta_text_def split: option.splits)
  then have nw2: "r2 = [] \<or> \<not> is_word_char (hd r2)" using not_word_chars by auto
  have nw1: "r1 = [] \<or> \<not> is_word_char (hd r1)"
    using nw2 hd2 not_word_chars by (auto simp: r1_def w2_def split: option.splits)
  from assms have "cap_word (word1 p)" by (simp add: wf_parts_def)
  then have s1: "match_word (word1 p @ r1) = Some (word1 p, r1)" using nw1 by (rule match_word_app)
  have s2: "match_word2 r1 = (w2, r2)"
  proof (cases "word2 p")
    case None
    then have "r1 = r2" "w2 = []" by (simp_all add: r1_def w2_def)
    moreover have "match_word2 r2 = ([], r2)" using hd2 not_word_chars by (intro match_word2_None) auto
    ultimately show ?thesis by simp
  next
    case (Some w)
    with assms have "cap_word w" by (simp add: wf_parts_def)
    from match_word2_Some [OF this nw2] Some show ?thesis by (simp add: r1_def w2_def)
  qed
  have s3: "match_meta r2 = (g3, r3)"
  proof (cases "metadata p")
    case None
    then have "r2 = r3" "g3 = None" by (simp_all add: r2_def g3_def meta_text_def)
    moreover have "match_meta r3 = (None, r3)" by (intro match_meta_None) (simp add: r3_def)
    ultimately show ?thesis by simp
  next
    case (Some m)
    with assms have "CHR '')'' \<notin> set m" by (simp add: wf_parts_def)
    from match_meta_Some [OF this, of r3] Some show ?thesis by (simp add: r2_def g3_def meta_text_def)
  qed
  have s4: "match_tail r4 = Some g4"
  proof (cases "rest p")
    case None
    with match_tail_None_ok [of "line_feed p"] show ?thesis by (simp add: r4_def g4_def end_text_def)
  next
    case (Some s)
    with assms have "CHR 0x0A \<notin> set s" by (simp add: wf_parts_def)
    from match_tail_Some_ok [OF this, of "line_feed p"] Some show ?thesis
      by (simp add: r4_def g4_def end_text_def)
  qed
  have "header_pat_match (render p) = Some (word1 p @ w2, g3, g4)"
    unfolding line header_pat_match_def using s1 s2 s3 s4 by (simp add: startswith_def r3_def)
  moreover have "header_fields (word1 p @ w2, g3, g4) = triple_of p"
    by (simp add: header_fields_def triple_of_def title_of_def w2_def g3_def g4_def strip_space_Cons
        split: option.splits)
  ultimately show ?thesis by (simp add: header_match_def)
qed

lemma header_match_sound:
  assumes "header_match line = Some t"
  shows "\<exists>p. wf_parts p \<and> line = render p \<and> t = triple_of p"
proof -
  from assms obtain g1 g3 g4 where pm: "header_pat_match line = Some (g1, g3, g4)"
    and t: "t = header_fields (g1, g3, g4)"
    by (auto simp: header_match_def)
  from pm have sw: "startswith line ''// ''" by (auto simp: header_pat_match_def split: if_splits)
  then have "take 3 line = ''// ''" by (simp add: startswith_def numeral_3_eq_3)
  then have "''// '' @ drop 3 line = line" using append_take_drop_id [of 3 line] by metis
  then have line: "line = ''// '' @ drop 3 line" by (rule sym)
  from pm sw obtain w1 r1 w2 r2 r3 r4 where
    m1: "match_word (drop 3 line) = Some (w1, r1)" and
    m2: "match_word2 r1 = (w2, r2)" and
    m3: "match_meta r2 = (g3, r3)" and
    r3: "r3 = CHR '':'' # r4" and
    m4: "match_tail r4 = Some g4" and
    g1: "g1 = w1 @ w2"
    by (auto simp: header_pat_match_def split: option.splits prod.splits list.splits if_splits)
  from match_word_Some [OF m1] have d3: "drop 3 line = w1 @ r1" and cw1: "cap_word w1"
    and nw1: "r1 = [] \<or> \<not> is_word_char (hd r1)" by simp_all
  from match_word2_cases [OF m2 nw1] obtain wo where
    wo: "(case wo of None \<Rightarrow> True | Some w \<Rightarrow> cap_word w)"
    and w2: "w2 = (case wo of None \<Rightarrow> [] | Some w \<Rightarrow> CHR '' '' # w)" and r1: "r1 = w2 @ r2"
  proof (elim disjE exE conjE)
    assume "w2 = []" "r2 = r1"
    then show ?thesis using that [of None] by simp
  next
    fix w assume "w2 = CHR '' '' # w" "cap_word w" "r1 = w2 @ r2"
    then show ?thesis using that [of "Some w"] by simp
  qed
  from match_meta_cases [OF m3] obtain mo where
    mo: "(case mo of None \<Rightarrow> True | Some m \<Rightarrow> CHR '')'' \<notin> set m)"
    and g3: "g3 = (case mo of None \<Rightarrow> None | Some m \<Rightarrow> Some (CHR ''('' # m @ '')''))"
    and r2: "r2 = (case mo of None \<Rightarrow> [] | Some m \<Rightarrow> ''('' @ m @ '')'') @ r3"
  proof (elim disjE exE conjE)
    assume "g3 = None" "r3 = r2"
    then show ?thesis using that [of None] by simp
  next
    fix m assume "g3 = Some (CHR ''('' # m @ '')'')" "CHR '')'' \<notin> set m" "r2 = CHR ''('' # m @ CHR '')'' # r3"
    then show ?thesis using that [of "Some m"] by simp
  qed
  from match_tail_cases [OF m4] obtain lf so where
    so: "(case so of None \<Rightarrow> True | Some s \<Rightarrow> CHR 0x0A \<notin> set s)"
    and g4: "g4 = (case so of None \<Rightarrow> None | Some s \<Rightarrow> Some (CHR '' '' # s))"
    and r4: "r4 = (case so of None \<Rightarrow> [] | Some s \<Rightarrow> CHR '' '' # s) @ (if lf then [CHR 0x0A] else [])"
  proof (elim disjE exE conjE)
    fix lf assume "g4 = None" "r4 = (if lf then [CHR 0x0A] else [])"
    then show ?thesis using that [of None lf] by simp
  next
    fix lf s assume "g4 = Some (CHR '' '' # s)" "CHR 0x0A \<notin> set s"
      "r4 = CHR '' '' # s @ (if lf then [CHR 0x0A] else [])"
    then show ?thesis using that [of "Some s" lf] by simp
  qed
  define p where "p = \<lparr>word1 = w1, word2 = wo, metadata = mo, rest = so, line_feed = lf\<rparr>"
  have "wf_parts p" using cw1 wo mo so by (simp add: wf_parts_def p_def)
  moreover have "line = render p"
  proof -
    have "drop 3 line = w1 @ w2 @ (case mo of None \<Rightarrow> [] | Some m \<Rightarrow> ''('' @ m @ '')'') @ CHR '':'' # r4"
      using d3 r1 r2 r3 by simp
    then have "render p = ''// '' @ drop 3 line"
      by (simp add: render_def p_def title_of_def meta_text_def end_text_def w2 r4)
    with line show ?thesis by simp
  qed
  moreover have "t = triple_of p"
    unfolding t g1 w2 g3 g4
    by (simp add: header_fields_def triple_of_def title_of_def p_def strip_space_Cons split: option.splits)
  ultimately show ?thesis by blast
qed

section \<open>Claims about the header matcher\<close>

text \<open>
  C7, as stated. The header matcher is a function of the line alone. The claim takes the
  header grammar to be: comment prefix, title of one or two capitalised words, optional
  parenthesised metadata, a colon, optional subtitle (\<^const>\<open>spec_line\<close>), and says
  that every such line yields the triple of title, metadata and trimmed subtitle. The
  line \<open>// Foo:bar\<close> has that shape, with subtitle \<open>bar\<close>, and the matcher returns no
  match for it: the pattern wants a space between the colon and a subtitle.
\<close>

theorem header_match_spec_grammar_counterexample:
  "wf_parts \<lparr>word1 = ''Foo'', word2 = None, metadata = None, rest = Some ''bar'', line_feed = False\<rparr>
   \<and> spec_line \<lparr>word1 = ''Foo'', word2 = None, metadata = None, rest = Some ''bar'', line_feed = False\<rparr>
       = ''// Foo:bar''
   \<and> triple_of \<lparr>word1 = ''Foo'', word2 = None, metadata = None, rest = Some ''bar'', line_feed = False\<rparr>
       = (''Foo'', [], ''bar'')
   \<and> header_match ''// Foo:bar'' = None"
  by code_simp

text \<open>
  C7, amended. The header matcher is a function of the line alone, and it returns a
  triple \<open>t\<close> for a line exactly when the line is \<open>// \<close>, a title of one or two
  capitalised words over letters, digits, \<open>_\<close>, \<open>&\<close>, \<open>-\<close> (separated by one space),
  optionally metadata in parentheses (without \<open>)\<close>), a colon, then nothing or a space
  followed by the rest of the line (without line feed), then possibly one final line
  feed; \<open>t\<close> is then the title, the metadata without its parentheses (or the empty
  string) and the rest trimmed (or the empty string). Every other line gives no match.
\<close>

theorem header_match_grammar:
  "header_match line = Some t \<longleftrightarrow> (\<exists>p. wf_parts p \<and> line = render p \<and> t = triple_of p)"
  using header_match_complete header_match_sound by blast

theorem header_match_grammar_witness:
  "wf_parts \<lparr>word1 = ''See'', word2 = Some ''Also'', metadata = Some ''a=1;b'',
       rest = Some '' foo(), bar() '', line_feed = True\<rparr>
   \<and> header_match (''// See Also(a=1;b):  foo(), bar() '' @ [CHR 0x0A])
        = Some (''See Also'', ''a=1;b'', ''foo(), bar()'')"
proof -
  let ?p = "\<lparr>word1 = ''See'', word2 = Some ''Also'', metadata = Some ''a=1;b'',
       rest = Some '' foo(), bar() '', line_feed = True\<rparr>"
  have wf: "wf_parts ?p" by code_simp
  have r: "render ?p = ''// See Also(a=1;b):  foo(), bar() '' @ [CHR 0x0A]" by code_simp
  have t: "triple_of ?p = (''See Also'', ''a=1;b'', ''foo(), bar()'')" by code_simp
  from wf have "\<exists>p. wf_parts p \<and> render ?p = render p \<and> triple_of ?p = triple_of p" by blast
  then have "header_match (render ?p) = Some (triple_of ?p)"
    using header_match_grammar [of "render ?p" "triple_of ?p"] by simp
  with wf r t show ?thesis by simp
qed

section \<open>Exceptions\<close>

text \<open>
  \<open>DocsGenException(block, message)\<close> is the exception of the parser; its class lives in
  \<open>blocks.py\<close>. \<open>AttributeError\<close> stands for the Python run-time error raised when an
  attribute or method is looked up on a value that does not have it (\<open>None.parent\<close>,
  \<open>(1).split\<close>); \<open>_parse_block\<close> does not catch it.
\<close>

datatype failure = DocsGenException string string | AttributeError

section \<open>Body extraction\<close>

text \<open>
  The loop of \<open>_parse_block\<close> (lines 234 to 248) that collects the body lines after a
  header. \<open>line_num\<close> is the index of the next line, \<open>first_line\<close> and \<open>indent\<close> are the
  loop's variables, \<open>body\<close> the lines collected so far. The loop raises on a line that
  starts with \<open>//\<close> and two spaces but not with \<open>indent\<close> spaces.
\<close>

function body_loop :: "string \<Rightarrow> string list \<Rightarrow> nat \<Rightarrow> bool \<Rightarrow> nat \<Rightarrow> string list
    \<Rightarrow> failure + (string list \<times> nat)" where
  "body_loop title lines line_num first_line indent body =
     (if line_num < length lines then
        (let line = lines ! line_num in
         if \<not> startswith line (''//'' @ spaces indent) then
           (if startswith line ''//  '' then
              Inl (DocsGenException title
                ''Body line has less indentation than first line, while declaring block:'')
            else Inr (body, line_num))
         else
           (let line2 = drop 2 line;
                indent2 = (if first_line then length line2 - length (lstrip line2) else indent)
            in body_loop title lines (line_num + 1) False indent2
                 (body @ [rstrip (drop indent2 line2)])))
      else Inr (body, line_num))"
  by pat_completeness auto
termination
  by (relation "measure (\<lambda>(t, lines, n, f, i, b). length lines - n)") auto

definition extract_body :: "string \<Rightarrow> string list \<Rightarrow> nat \<Rightarrow> failure + (string list \<times> nat)" where
  "extract_body title lines line_num = body_loop title lines line_num True 2 []"

text \<open>
  Re-indentation of body lines: the white space \<open>ws\<close> put behind the comment prefix
  \<open>//\<close> of a line, for the lines \<open>i\<close> up to \<open>n - 1\<close> of a list of lines. \<open>reindent k\<close> is
  the case of \<open>k\<close> space characters.
\<close>

definition indent_by :: "string \<Rightarrow> string \<Rightarrow> string" where
  "indent_by ws line = take 2 line @ ws @ drop 2 line"

definition indent_block_by :: "string \<Rightarrow> nat \<Rightarrow> nat \<Rightarrow> string list \<Rightarrow> string list" where
  "indent_block_by ws i n lines =
     take i lines @ map (indent_by ws) (take (n - i) (drop i lines)) @ drop n lines"

definition reindent :: "nat \<Rightarrow> string \<Rightarrow> string" where
  "reindent k = indent_by (spaces k)"

definition reindent_block :: "nat \<Rightarrow> nat \<Rightarrow> nat \<Rightarrow> string list \<Rightarrow> string list" where
  "reindent_block k = indent_block_by (spaces k)"

lemma reindent_eq: "reindent k line = take 2 line @ spaces k @ drop 2 line"
  by (simp add: reindent_def indent_by_def)

lemma reindent_block_eq:
  "reindent_block k i n lines =
     take i lines @ map (reindent k) (take (n - i) (drop i lines)) @ drop n lines"
  by (simp add: reindent_block_def indent_block_by_def reindent_def)

text \<open>The indent the first body line sets: \<open>len(line) - len(line.lstrip())\<close> after \<open>line[2:]\<close>.\<close>

definition first_indent :: "string list \<Rightarrow> nat \<Rightarrow> nat" where
  "first_indent lines i = length (drop 2 (lines ! i)) - length (lstrip (drop 2 (lines ! i)))"

declare body_loop.simps [simp del]

lemma body_loop_step:
  assumes "line_num < length lines" and "startswith (lines ! line_num) (''//'' @ spaces indent)"
  shows "body_loop title lines line_num first_line indent body =
     body_loop title lines (line_num + 1) False
       (if first_line then length (drop 2 (lines ! line_num)) - length (lstrip (drop 2 (lines ! line_num)))
        else indent)
       (body @ [rstrip (drop (if first_line
            then length (drop 2 (lines ! line_num)) - length (lstrip (drop 2 (lines ! line_num)))
            else indent) (drop 2 (lines ! line_num)))])"
  using assms by (subst body_loop.simps) (simp add: Let_def)

lemma body_loop_stop:
  assumes "\<not> (line_num < length lines \<and> startswith (lines ! line_num) (''//'' @ spaces indent))"
  shows "body_loop title lines line_num first_line indent body =
     (if line_num < length lines \<and> startswith (lines ! line_num) ''//  '' then
        Inl (DocsGenException title
          ''Body line has less indentation than first line, while declaring block:'')
      else Inr (body, line_num))"
  using assms by (subst body_loop.simps) (auto simp: Let_def)

lemma body_loop_mono: "body_loop t lines j fl ind b = Inr (body, n) \<Longrightarrow> j \<le> n"
proof (induction t lines j fl ind b rule: body_loop.induct)
  case (1 title lines line_num first_line indent body')
  show ?case
  proof (cases "line_num < length lines \<and> startswith (lines ! line_num) (''//'' @ spaces indent)")
    case True
    then have "Suc line_num \<le> n"
      using "1.IH" [OF _ refl _ refl refl] "1.prems"
      by (subst (asm) body_loop.simps) (simp add: Let_def)
    then show ?thesis by simp
  next
    case False
    with "1.prems" show ?thesis
      by (subst (asm) body_loop.simps) (auto simp: Let_def split: if_splits)
  qed
qed

lemma startswith_spaces_le:
  "startswith s (''//'' @ spaces m) \<Longrightarrow> n \<le> m \<Longrightarrow> startswith s (''//'' @ spaces n)"
proof -
  assume a: "startswith s (''//'' @ spaces m)" and le: "n \<le> m"
  then have "take (2 + m) s = ''//'' @ spaces m" by (simp add: startswith_def spaces_def)
  then have "take (2 + n) (take (2 + m) s) = take (2 + n) (''//'' @ spaces m)" by simp
  with le have "take (2 + n) s = ''//'' @ spaces n" by (simp add: spaces_def min_def)
  then show ?thesis by (simp add: startswith_def spaces_def)
qed

lemma startswith_reindent:
  assumes "startswith s (''//'' @ spaces m)"
  shows "startswith (reindent k s) (''//'' @ spaces (m + k))"
    and "drop 2 (reindent k s) = spaces k @ drop 2 s"
proof -
  from assms have "take (2 + m) s = ''//'' @ spaces m" by (simp add: startswith_def spaces_def)
  then have "take 2 (take (2 + m) s) = ''//''" by simp
  then have t2: "take 2 s = ''//''" by (simp add: min_def)
  from \<open>take (2 + m) s = _\<close> have "drop 2 (take (2 + m) s) = spaces m" by simp
  then have tm: "take m (drop 2 s) = spaces m" by (simp add: drop_take)
  show "drop 2 (reindent k s) = spaces k @ drop 2 s" using t2 by (simp add: reindent_eq)
  show "startswith (reindent k s) (''//'' @ spaces (m + k))"
    using t2 tm
    by (simp add: reindent_eq startswith_def spaces_def replicate_add [symmetric] add.commute)
qed


lemma lstrip_spaces: "lstrip (spaces k @ x) = lstrip x"
  by (induction k) (simp_all add: lstrip_def spaces_def is_space_def)

lemma length_lstrip_le: "length (lstrip x) \<le> length x"
  by (simp add: lstrip_def length_dropWhile_le)

lemma body_loop_reindent:
  assumes "body_loop t lines j fl ind b = Inr (body, n)"
    and "length lines' = length lines"
    and "\<And>m. j \<le> m \<Longrightarrow> m < n \<Longrightarrow> lines' ! m = reindent k (lines ! m)"
    and "n < length lines \<Longrightarrow> lines' ! n = lines ! n"
  shows "body_loop t lines' j fl (if fl then ind else ind + k) b = Inr (body, n)"
  using assms
proof (induction t lines j fl ind b rule: body_loop.induct)
  case (1 title lines line_num first_line indent body0)
  let ?i' = "if first_line then indent else indent + k"
  define line where "line = lines ! line_num"
  show ?case
  proof (cases "line_num < length lines \<and> startswith line (''//'' @ spaces indent)")
    case False
    then have stop: "\<not> (line_num < length lines \<and> startswith (lines ! line_num) (''//'' @ spaces indent))"
      by (simp add: line_def)
    from "1.prems"(1) have r: "\<not> (line_num < length lines \<and> startswith line ''//  '')"
      and res: "body = body0" "n = line_num"
      unfolding body_loop_stop [OF stop] line_def by (auto split: if_splits)
    have same: "line_num < length lines \<Longrightarrow> lines' ! line_num = line"
      using "1.prems"(4) res by (simp add: line_def)
    have "\<not> startswith line (''//'' @ spaces ?i')"  if "line_num < length lines"
      using that False startswith_spaces_le [of line ?i' indent] by auto
    then have stop': "\<not> (line_num < length lines' \<and> startswith (lines' ! line_num) (''//'' @ spaces ?i'))"
      using same "1.prems"(2) by auto
    show ?thesis unfolding body_loop_stop [OF stop'] using r same "1.prems"(2) res by auto
  next
    case True
    then have lt: "line_num < length lines" and sw0: "startswith (lines ! line_num) (''//'' @ spaces indent)"
      by (simp_all add: line_def)
    define line2 where "line2 = drop 2 line"
    define indent2 where
      "indent2 = (if first_line then length line2 - length (lstrip line2) else indent)"
    define b2 where "b2 = body0 @ [rstrip (drop indent2 line2)]"
    have rec: "body_loop title lines (line_num + 1) False indent2 b2 = Inr (body, n)"
      using "1.prems"(1) unfolding body_loop_step [OF lt sw0] b2_def indent2_def line2_def line_def .
    from body_loop_mono [OF rec] have n: "line_num < n" by simp
    have l': "lines' ! line_num = reindent k line"
      using "1.prems"(3) [of line_num] n by (simp add: line_def)
    have "body_loop title lines' (line_num + 1) False (if False then indent2 else indent2 + k)
            (body0 @ [rstrip (drop indent2 line2)]) = Inr (body, n)"
    proof (rule "1.IH" [OF lt _ _ _ _ _ "1.prems"(2)])
      show "line = lines ! line_num" by (simp add: line_def)
      show "\<not> \<not> startswith line (''//'' @ spaces indent)" using True by simp
      show "line2 = drop 2 line" by (simp add: line2_def)
      show "indent2 = (if first_line then length line2 - length (lstrip line2) else indent)"
        by (simp add: indent2_def)
      show "body_loop title lines (line_num + 1) False indent2 (body0 @ [rstrip (drop indent2 line2)])
          = Inr (body, n)" using rec unfolding b2_def .
      show "\<And>m. line_num + 1 \<le> m \<Longrightarrow> m < n \<Longrightarrow> lines' ! m = reindent k (lines ! m)"
        using "1.prems"(3) by simp
      show "n < length lines \<Longrightarrow> lines' ! n = lines ! n" using "1.prems"(4) by simp
    qed
    then have new_rec: "body_loop title lines' (line_num + 1) False (indent2 + k) b2 = Inr (body, n)"
      by (simp add: b2_def)
    from True have swl: "startswith line (''//'' @ spaces indent)" by simp
    from startswith_reindent [OF swl, of k]
    have sw: "startswith (reindent k line) (''//'' @ spaces (indent + k))"
      and d2: "drop 2 (reindent k line) = spaces k @ line2" by (simp_all add: line2_def)
    from sw have sw': "startswith (lines' ! line_num) (''//'' @ spaces ?i')"
      using startswith_spaces_le [of "reindent k line" "indent + k" indent] by (simp add: l')
    have lt': "line_num < length lines'" using lt "1.prems"(2) by simp
    have len: "length (spaces k @ line2) - length (lstrip (spaces k @ line2))
        = (length line2 - length (lstrip line2)) + k"
      using length_lstrip_le [of line2] by (simp add: lstrip_spaces) (simp add: spaces_def)
    have i2: "(if first_line then length (drop 2 (lines' ! line_num)) - length (lstrip (drop 2 (lines' ! line_num))) else ?i')
        = indent2 + k"
      unfolding l' d2 using len by (simp add: indent2_def)
    have dr: "drop (indent2 + k) (drop 2 (lines' ! line_num)) = drop indent2 line2"
      unfolding l' d2 by (simp add: spaces_def)
    show ?thesis
      unfolding body_loop_step [OF lt' sw'] i2 dr using new_rec unfolding b2_def .
  qed
qed

lemma body_loop_body:
  assumes "body_loop t lines j fl ind b = Inr (body, n)" and "\<not> fl"
  shows "body = b @ map (\<lambda>l. rstrip (drop ind (drop 2 l))) (take (n - j) (drop j lines))"
  using assms
proof (induction t lines j fl ind b rule: body_loop.induct)
  case (1 title lines line_num first_line indent body0)
  show ?case
  proof (cases "line_num < length lines \<and> startswith (lines ! line_num) (''//'' @ spaces indent)")
    case False
    with "1.prems" have "body = body0 \<and> n = line_num"
      by (subst (asm) body_loop.simps) (auto simp: Let_def split: if_splits)
    then show ?thesis by simp
  next
    case True
    let ?b2 = "body0 @ [rstrip (drop indent (drop 2 (lines ! line_num)))]"
    have rec: "body_loop title lines (line_num + 1) False indent ?b2 = Inr (body, n)"
      using "1.prems" True by (subst (asm) body_loop.simps) (simp add: Let_def)
    from body_loop_mono [OF rec] have n: "line_num < n" by simp
    have "body = ?b2 @ map (\<lambda>l. rstrip (drop indent (drop 2 l))) (take (n - (line_num + 1)) (drop (line_num + 1) lines))"
      using "1.IH" [OF _ refl _ refl refl] True rec "1.prems"(2) by simp
    moreover have "take (n - line_num) (drop line_num lines)
        = lines ! line_num # take (n - (line_num + 1)) (drop (line_num + 1) lines)"
    proof -
      from n obtain d where d: "n - line_num = Suc d" by (cases "n - line_num") auto
      then have "n - (line_num + 1) = d" by simp
      moreover from True have "drop line_num lines = lines ! line_num # drop (line_num + 1) lines"
        by (simp add: Cons_nth_drop_Suc)
      ultimately show ?thesis using d by simp
    qed
    ultimately show ?thesis by simp
  qed
qed

lemma extract_body_lines:
  assumes "extract_body title lines i = Inr (body, n)"
  shows "body = map (\<lambda>l. rstrip (drop (first_indent lines i) (drop 2 l))) (take (n - i) (drop i lines))"
proof (cases "i < length lines \<and> startswith (lines ! i) (''//'' @ spaces 2)")
  case False
  with assms have "body = [] \<and> n = i"
    unfolding extract_body_def by (subst (asm) body_loop.simps) (auto simp: Let_def split: if_splits)
  then show ?thesis by simp
next
  case True
  let ?ind = "first_indent lines i"
  let ?b2 = "[rstrip (drop ?ind (drop 2 (lines ! i)))]"
  have rec: "body_loop title lines (i + 1) False ?ind ?b2 = Inr (body, n)"
    using assms True unfolding extract_body_def
    by (subst (asm) body_loop.simps) (simp add: Let_def first_indent_def)
  from body_loop_mono [OF rec] have n: "i < n" by simp
  from body_loop_body [OF rec] have
    "body = ?b2 @ map (\<lambda>l. rstrip (drop ?ind (drop 2 l))) (take (n - (i + 1)) (drop (i + 1) lines))"
    by simp
  moreover have "take (n - i) (drop i lines) = lines ! i # take (n - (i + 1)) (drop (i + 1) lines)"
  proof -
    from n obtain d where d: "n - i = Suc d" by (cases "n - i") auto
    then have "n - (i + 1) = d" by simp
    moreover from True have "drop i lines = lines ! i # drop (i + 1) lines"
      by (simp add: Cons_nth_drop_Suc)
    ultimately show ?thesis using d by simp
  qed
  ultimately show ?thesis by simp
qed

lemma reindent_block_props:
  assumes "i \<le> n" and "n \<le> length lines"
  shows "length (reindent_block k i n lines) = length lines"
    and "\<And>m. i \<le> m \<Longrightarrow> m < n \<Longrightarrow> reindent_block k i n lines ! m = reindent k (lines ! m)"
    and "n < length lines \<Longrightarrow> reindent_block k i n lines ! n = lines ! n"
proof -
  from assms show len: "length (reindent_block k i n lines) = length lines"
    by (simp add: reindent_block_eq)
  show "reindent_block k i n lines ! m = reindent k (lines ! m)" if "i \<le> m" "m < n" for m
  proof -
    from that assms have "reindent_block k i n lines ! m
        = (map (reindent k) (take (n - i) (drop i lines)) @ drop n lines) ! (m - i)"
      by (simp add: reindent_block_eq nth_append)
    also from that assms have "\<dots> = map (reindent k) (take (n - i) (drop i lines)) ! (m - i)"
    proof -
      from that have "m - i < n - i" by arith
      with assms show ?thesis by (simp add: nth_append)
    qed
    also from that assms have "\<dots> = reindent k (lines ! m)" by simp
    finally show ?thesis .
  qed
  show "reindent_block k i n lines ! n = lines ! n" if "n < length lines"
  proof -
    from that assms have "reindent_block k i n lines ! n
        = (map (reindent k) (take (n - i) (drop i lines)) @ drop n lines) ! (n - i)"
      by (simp add: reindent_block_eq nth_append)
    also from that assms have "\<dots> = drop n lines ! 0"
      by (simp add: nth_append)
    also from that have "\<dots> = lines ! n" by simp
    finally show ?thesis .
  qed
qed

lemma body_loop_le_length:
  "body_loop t lines j fl ind b = Inr (body, n) \<Longrightarrow> j \<le> length lines \<Longrightarrow> n \<le> length lines"
proof (induction t lines j fl ind b rule: body_loop.induct)
  case (1 title lines line_num first_line indent body')
  show ?case
  proof (cases "line_num < length lines \<and> startswith (lines ! line_num) (''//'' @ spaces indent)")
    case True
    then show ?thesis
      using "1.IH" [OF _ refl _ refl refl] "1.prems"
      by (subst (asm) body_loop.simps) (simp add: Let_def)
  next
    case False
    with "1.prems" show ?thesis
      by (subst (asm) body_loop.simps) (auto simp: Let_def split: if_splits)
  qed
qed

text \<open>
  C8, as stated: extraction is invariant when every body line gets an additional
  constant amount of white space after the comment prefix. The loop accepts a body line
  only if it starts with \<open>//\<close> and space characters (line 238), while the indent is
  counted with \<open>lstrip\<close>, which takes any white space (line 245). A tab is white space;
  put behind the \<open>//\<close> of the two body lines below, it makes the first of them fail the
  test of line 238, and the body becomes empty.
\<close>

theorem extract_body_tab_counterexample:
  "list_all is_space [CHR 0x09]
   \<and> extract_body ''Section'' [''// Section: A'', ''//  one'', ''//  two'', ''x = 1;''] 1
        = Inr ([''one'', ''two''], 3)
   \<and> indent_block_by [CHR 0x09] 1 3 [''// Section: A'', ''//  one'', ''//  two'', ''x = 1;'']
        = [''// Section: A'', ''//'' @ [CHR 0x09] @ ''  one'', ''//'' @ [CHR 0x09] @ ''  two'', ''x = 1;'']
   \<and> extract_body ''Section''
        (indent_block_by [CHR 0x09] 1 3 [''// Section: A'', ''//  one'', ''//  two'', ''x = 1;'']) 1
        = Inr ([], 1)"
  by code_simp

text \<open>
  C8, amended. Body extraction is invariant under uniform re-indentation by space
  characters. When the extraction that starts at line \<open>i\<close> succeeds with the body \<open>body\<close>
  and the next index \<open>n\<close> (so that the lines \<open>i\<close> to \<open>n - 1\<close> are the body lines of the
  block), then after \<open>k\<close> more spaces are put behind the comment prefix of each of these
  body lines, the extraction returns the same body and the same index. The body is the
  list of the body lines, each without its prefix \<open>//\<close>, without the indent of the first
  body line, and without trailing white space.
\<close>

theorem extract_body_reindent:
  assumes "extract_body title lines i = Inr (body, n)"
  shows "extract_body title (reindent_block k i n lines) i = Inr (body, n)
     \<and> body = map (\<lambda>l. rstrip (drop (first_indent lines i) (drop 2 l))) (take (n - i) (drop i lines))"
proof -
  from assms have bl: "body_loop title lines i True 2 [] = Inr (body, n)" by (simp add: extract_body_def)
  from body_loop_mono [OF bl] have le: "i \<le> n" .
  have "body_loop title (reindent_block k i n lines) i True (if True then 2 else 2 + k) [] = Inr (body, n)"
  proof (cases "i \<le> length lines")
    case True
    from body_loop_le_length [OF bl True] have le2: "n \<le> length lines" .
    show ?thesis
    proof (rule body_loop_reindent [OF bl])
      show "length (reindent_block k i n lines) = length lines"
        by (rule reindent_block_props(1) [OF le le2])
      show "\<And>m. i \<le> m \<Longrightarrow> m < n \<Longrightarrow> reindent_block k i n lines ! m = reindent k (lines ! m)"
        by (rule reindent_block_props(2) [OF le le2])
      show "n < length lines \<Longrightarrow> reindent_block k i n lines ! n = lines ! n"
        by (rule reindent_block_props(3) [OF le le2])
    qed
  next
    case False
    with le have "reindent_block k i n lines = lines" by (simp add: reindent_block_eq)
    with bl show ?thesis by simp
  qed
  then show ?thesis using extract_body_lines [OF assms(1)] by (simp add: extract_body_def)
qed

theorem extract_body_reindent_witness:
  "extract_body ''Function''
      [''// Function: foo()'', ''//   Description:'', ''//     Does a thing.  '', ''//   More'', ''x = 1;''] 1
     = Inr ([''Description:'', ''  Does a thing.'', ''More''], 4)
   \<and> reindent_block 3 1 4
      [''// Function: foo()'', ''//   Description:'', ''//     Does a thing.  '', ''//   More'', ''x = 1;'']
     = [''// Function: foo()'', ''//      Description:'', ''//        Does a thing.  '', ''//      More'', ''x = 1;'']
   \<and> extract_body ''Function''
      [''// Function: foo()'', ''//      Description:'', ''//        Does a thing.  '', ''//      More'', ''x = 1;''] 1
     = Inr ([''Description:'', ''  Does a thing.'', ''More''], 4)"
proof -
  let ?lines = "[''// Function: foo()'', ''//   Description:'', ''//     Does a thing.  '', ''//   More'', ''x = 1;'']"
  have e: "extract_body ''Function'' ?lines 1 = Inr ([''Description:'', ''  Does a thing.'', ''More''], 4)"
    by code_simp
  have r: "reindent_block 3 1 4 ?lines
     = [''// Function: foo()'', ''//      Description:'', ''//        Does a thing.  '', ''//      More'', ''x = 1;'']"
    by code_simp
  from extract_body_reindent [OF e, of 3] e r show ?thesis by simp
qed

section \<open>More string operations\<close>

text \<open>\<open>s.split(c)\<close> for a separator of one character: never an empty list.\<close>

fun split_char :: "char \<Rightarrow> string \<Rightarrow> string list" where
  "split_char c [] = [[]]"
| "split_char c (x # xs) =
     (if x = c then [] # split_char c xs
      else (case split_char c xs of [] \<Rightarrow> [[x]] | w # ws \<Rightarrow> (x # w) # ws))"

text \<open>\<open>s.split(ab)\<close> for a separator of the two characters \<open>a\<close>, \<open>b\<close>, scanned from the left.\<close>

fun split_str2 :: "char \<Rightarrow> char \<Rightarrow> string \<Rightarrow> string list" where
  "split_str2 a b (x # y # r) =
     (if x = a \<and> y = b then [] # split_str2 a b r
      else (case split_str2 a b (y # r) of [] \<Rightarrow> [[x]] | w # ws \<Rightarrow> (x # w) # ws))"
| "split_str2 a b [x] = [[x]]"
| "split_str2 a b [] = [[]]"

text \<open>\<open>s.split(c, 1)\<close> for an \<open>s\<close> that contains \<open>c\<close>: the text before the first \<open>c\<close>, the text after it.\<close>

definition split_first :: "char \<Rightarrow> string \<Rightarrow> string \<times> string" where
  "split_first c s = (takeWhile (\<lambda>x. x \<noteq> c) s, drop 1 (dropWhile (\<lambda>x. x \<noteq> c) s))"

text \<open>\<open>sub in s\<close>\<close>

definition contains :: "string \<Rightarrow> string \<Rightarrow> bool" where
  "contains s sub \<longleftrightarrow> list_ex (\<lambda>i. startswith (drop i s) sub) [0..<Suc (length s)]"

section \<open>The registry of block types\<close>

text \<open>
  The node classes that \<open>parser.py\<close> imports from \<open>blocks.py\<close>, as tags. An entry of
  \<open>header_defs\<close> is the tuple \<open>(parenttype, nodetype, extras, callback)\<close>: the class the
  current parent must have (or \<open>None\<close>), the class to instantiate, the header sets of a
  table (or \<open>None\<close>), and the callback (or \<open>None\<close>).
\<close>

datatype block_class =
    FileBlock | SectionBlock | SubsectionBlock | ItemBlock | IncludesBlock
  | GenericBlock | LabelBlock | TextBlock | NumberedListBlock | BulletListBlock
  | TableBlock | ExampleBlock | FigureBlock | TopicsBlock | SeeAlsoBlock

datatype callback = status_block_cb | alias_block_cb

type_synonym header_def = "block_class option \<times> block_class \<times> string list list option \<times> callback option"

text \<open>
  \<open>_parse_meta_dict\<close>: the dictionary of a \<open>;\<close>-separated option string. A part without
  \<open>=\<close> gets the integer \<open>1\<close> as value (\<open>MOne\<close>), a part \<open>key=value\<close> the string after
  the first \<open>=\<close>. The dictionary is an association list in insertion order; assigning to
  a key that is present replaces its value in place.
\<close>

datatype meta_val = MStr string | MOne

definition parse_meta_dict :: "string \<Rightarrow> (string \<times> meta_val) list" where
  "parse_meta_dict meta =
     fold (\<lambda>part meta_dict.
             if CHR ''='' \<in> set part then
               (case split_first (CHR ''='') part of (key, val) \<Rightarrow> AList.update key (MStr val) meta_dict)
             else AList.update part MOne meta_dict)
          (split_char (CHR '';'') meta) []"

text \<open>\<open>k in d\<close>\<close>

definition has_key :: "'a \<Rightarrow> ('a \<times> 'b) list \<Rightarrow> bool" where
  "has_key k d \<longleftrightarrow> map_of d k \<noteq> None"

text \<open>
  \<open>_define_blocktype\<close>, on the dictionary \<open>header_defs\<close> it assigns to. With the kind
  \<open>Table\<close> the value of \<open>Headers\<close> is split; a bare \<open>Headers\<close> has the value \<open>1\<close>, which has
  no \<open>split\<close>.
\<close>

definition define_blocktype :: "string \<Rightarrow> string \<Rightarrow> (string \<times> header_def) list
    \<Rightarrow> failure + (string \<times> header_def) list" where
  "define_blocktype title0 meta0 header_defs =
     (let title = strip title0;
          meta = parse_meta_dict meta0;
          parentspec = (if has_key ''ItemOnly'' meta then Some ItemBlock else None)
      in
        if has_key ''NumList'' meta then
          Inr (AList.update title (parentspec, NumberedListBlock, None, None) header_defs)
        else if has_key ''BulletList'' meta then
          Inr (AList.update title (parentspec, BulletListBlock, None, None) header_defs)
        else if has_key ''Table'' meta then
          (case map_of meta ''Headers'' of
             None \<Rightarrow> Inl (DocsGenException ''DefineHeader''
                        ''Table type is missing Header= option, while declaring block:'')
           | Some MOne \<Rightarrow> Inl AttributeError
           | Some (MStr v) \<Rightarrow>
               (let hdr_meta = split_str2 (CHR ''|'') (CHR ''|'') v;
                    hdr_sets = map (\<lambda>hset. map strip (split_char (CHR ''|'') hset)) hdr_meta
                in Inr (AList.update title (parentspec, TableBlock, Some hdr_sets, None) header_defs)))
        else if has_key ''Example'' meta then
          Inr (AList.update title (parentspec, ExampleBlock, None, None) header_defs)
        else if has_key ''Figure'' meta then
          Inr (AList.update title (parentspec, FigureBlock, None, None) header_defs)
        else if has_key ''Label'' meta then
          Inr (AList.update title (parentspec, LabelBlock, None, None) header_defs)
        else if has_key ''Text'' meta then
          Inr (AList.update title (parentspec, TextBlock, None, None) header_defs)
        else if has_key ''Generic'' meta then
          Inr (AList.update title (parentspec, GenericBlock, None, None) header_defs)
        else Inl (DocsGenException ''DefineHeader''
               ''Could not parse target block type, while declaring block:''))"


subsection \<open>Claims about \<open>define\<close>\<close>

text \<open>The eight kind options, in the order the code tests them.\<close>

definition kind_options :: "string list" where
  "kind_options = [''NumList'', ''BulletList'', ''Table'', ''Example'', ''Figure'', ''Label'', ''Text'', ''Generic'']"

text \<open>"Exactly one of the options is present", as the claim words it.\<close>

definition exactly_one_kind :: "(string \<times> meta_val) list \<Rightarrow> bool" where
  "exactly_one_kind md \<longleftrightarrow> length (filter (\<lambda>k. has_key k md) kind_options) = 1"

text \<open>The kind in use: the first of the eight options that is present.\<close>

definition selected_kind :: "(string \<times> meta_val) list \<Rightarrow> string option" where
  "selected_kind md = find (\<lambda>k. has_key k md) kind_options"

text \<open>The node class of each kind option.\<close>

definition kind_class :: "string \<Rightarrow> block_class" where
  "kind_class k =
     (if k = ''NumList'' then NumberedListBlock
      else if k = ''BulletList'' then BulletListBlock
      else if k = ''Table'' then TableBlock
      else if k = ''Example'' then ExampleBlock
      else if k = ''Figure'' then FigureBlock
      else if k = ''Label'' then LabelBlock
      else if k = ''Text'' then TextBlock
      else GenericBlock)"

text \<open>The parent constraint: \<open>ItemBlock\<close> when the option \<open>ItemOnly\<close> is present.\<close>

definition parent_spec :: "(string \<times> meta_val) list \<Rightarrow> block_class option" where
  "parent_spec md = (if has_key ''ItemOnly'' md then Some ItemBlock else None)"

text \<open>A configuration error: the call raises \<open>DocsGenException\<close>.\<close>

definition is_config_error :: "failure + 'a \<Rightarrow> bool" where
  "is_config_error r \<longleftrightarrow> (case r of Inl (DocsGenException b m) \<Rightarrow> True | _ \<Rightarrow> False)"

text \<open>
  C6, as stated: \<open>define\<close> raises a configuration error unless exactly one of the eight
  kind options is present. With \<open>NumList;Text\<close> two of them are present, and the call
  registers a numbered list without error.
\<close>

theorem define_blocktype_counterexample:
  "\<not> exactly_one_kind (parse_meta_dict ''NumList;Text'')
   \<and> define_blocktype ''X'' ''NumList;Text'' [] = Inr [(''X'', None, NumberedListBlock, None, None)]"
  by code_simp

lemma define_blocktype_error_iff:
  "is_config_error (define_blocktype title meta defs) \<longleftrightarrow>
      selected_kind (parse_meta_dict meta) = None
      \<or> (selected_kind (parse_meta_dict meta) = Some ''Table''
          \<and> \<not> has_key ''Headers'' (parse_meta_dict meta))"
  unfolding define_blocktype_def Let_def selected_kind_def is_config_error_def kind_options_def
  by (auto simp: has_key_def split: option.splits meta_val.splits)

lemma define_blocktype_plain:
  assumes "selected_kind (parse_meta_dict meta) = Some k" and "k \<noteq> ''Table''"
  shows "define_blocktype title meta defs =
     Inr (AList.update (strip title) (parent_spec (parse_meta_dict meta), kind_class k, None, None) defs)"
proof -
  define md where "md = parse_meta_dict meta"
  from assms have f: "find (\<lambda>k. has_key k md) kind_options = Some k"
    by (simp add: selected_kind_def md_def)
  then have "k \<in> set kind_options" by (auto simp: find_Some_iff)
  then have d: "k = ''NumList'' \<or> k = ''BulletList'' \<or> k = ''Table'' \<or> k = ''Example''
      \<or> k = ''Figure'' \<or> k = ''Label'' \<or> k = ''Text'' \<or> k = ''Generic''"
    unfolding kind_options_def by simp
  from d show ?thesis
  proof (elim disjE)
    assume c: "k = ''NumList''"
    with f have "has_key ''NumList'' md"
      by (simp add: kind_options_def split: if_splits)
    with c show ?thesis
      by (simp add: define_blocktype_def Let_def md_def [symmetric] parent_spec_def kind_class_def)
  next
    assume c: "k = ''BulletList''"
    with f have "\<not> has_key ''NumList'' md \<and> has_key ''BulletList'' md"
      by (simp add: kind_options_def split: if_splits)
    with c show ?thesis
      by (simp add: define_blocktype_def Let_def md_def [symmetric] parent_spec_def kind_class_def)
  next
    assume c: "k = ''Table''"
    with assms(2) show ?thesis by simp
  next
    assume c: "k = ''Example''"
    with f have "\<not> has_key ''NumList'' md \<and> \<not> has_key ''BulletList'' md \<and> \<not> has_key ''Table'' md \<and> has_key ''Example'' md"
      by (simp add: kind_options_def split: if_splits)
    with c show ?thesis
      by (simp add: define_blocktype_def Let_def md_def [symmetric] parent_spec_def kind_class_def)
  next
    assume c: "k = ''Figure''"
    with f have "\<not> has_key ''NumList'' md \<and> \<not> has_key ''BulletList'' md \<and> \<not> has_key ''Table'' md \<and> \<not> has_key ''Example'' md \<and> has_key ''Figure'' md"
      by (simp add: kind_options_def split: if_splits)
    with c show ?thesis
      by (simp add: define_blocktype_def Let_def md_def [symmetric] parent_spec_def kind_class_def)
  next
    assume c: "k = ''Label''"
    with f have "\<not> has_key ''NumList'' md \<and> \<not> has_key ''BulletList'' md \<and> \<not> has_key ''Table'' md \<and> \<not> has_key ''Example'' md \<and> \<not> has_key ''Figure'' md \<and> has_key ''Label'' md"
      by (simp add: kind_options_def split: if_splits)
    with c show ?thesis
      by (simp add: define_blocktype_def Let_def md_def [symmetric] parent_spec_def kind_class_def)
  next
    assume c: "k = ''Text''"
    with f have "\<not> has_key ''NumList'' md \<and> \<not> has_key ''BulletList'' md \<and> \<not> has_key ''Table'' md \<and> \<not> has_key ''Example'' md \<and> \<not> has_key ''Figure'' md \<and> \<not> has_key ''Label'' md \<and> has_key ''Text'' md"
      by (simp add: kind_options_def split: if_splits)
    with c show ?thesis
      by (simp add: define_blocktype_def Let_def md_def [symmetric] parent_spec_def kind_class_def)
  next
    assume c: "k = ''Generic''"
    with f have "\<not> has_key ''NumList'' md \<and> \<not> has_key ''BulletList'' md \<and> \<not> has_key ''Table'' md \<and> \<not> has_key ''Example'' md \<and> \<not> has_key ''Figure'' md \<and> \<not> has_key ''Label'' md \<and> \<not> has_key ''Text'' md \<and> has_key ''Generic'' md"
      by (simp add: kind_options_def split: if_splits)
    with c show ?thesis
      by (simp add: define_blocktype_def Let_def md_def [symmetric] parent_spec_def kind_class_def)
  qed
qed

lemma define_blocktype_table:
  assumes "selected_kind (parse_meta_dict meta) = Some ''Table''"
    and "map_of (parse_meta_dict meta) ''Headers'' = Some (MStr v)"
  shows "define_blocktype title meta defs =
     Inr (AList.update (strip title)
            (parent_spec (parse_meta_dict meta), TableBlock,
             Some (map (\<lambda>hset. map strip (split_char (CHR ''|'') hset))
                    (split_str2 (CHR ''|'') (CHR ''|'') v)), None) defs)"
proof -
  define md where "md = parse_meta_dict meta"
  from assms(1) have "\<not> has_key ''NumList'' md \<and> \<not> has_key ''BulletList'' md \<and> has_key ''Table'' md"
    by (simp add: selected_kind_def md_def kind_options_def split: if_splits)
  with assms(2) show ?thesis
    by (simp add: define_blocktype_def Let_def md_def [symmetric] parent_spec_def)
qed

text \<open>
  C6, amended. The kind in use is the first of the options NumList, BulletList, Table,
  Example, Figure, Label, Text, Generic that is present in the option string; kind
  options after it are ignored. \<open>define\<close> raises a configuration error exactly when no
  kind option is present, or when the kind in use is Table and no Headers option is
  present. When the kind in use is not Table, the rule registered under the trimmed
  title has the node class of that kind, the parent constraint of \<open>ItemOnly\<close>, and no
  header sets. When the kind in use is Table and Headers has a value, the rule
  registered has the class of tables and the header sets obtained by splitting the
  value on \<open>||\<close> and each part on \<open>|\<close> into trimmed column names.
\<close>

theorem define_blocktype_selects:
  "(is_config_error (define_blocktype title meta defs) \<longleftrightarrow>
      selected_kind (parse_meta_dict meta) = None
      \<or> (selected_kind (parse_meta_dict meta) = Some ''Table''
          \<and> \<not> has_key ''Headers'' (parse_meta_dict meta)))
   \<and> (\<forall>k. selected_kind (parse_meta_dict meta) = Some k \<and> k \<noteq> ''Table'' \<longrightarrow>
        define_blocktype title meta defs =
          Inr (AList.update (strip title)
                 (parent_spec (parse_meta_dict meta), kind_class k, None, None) defs))
   \<and> (\<forall>v. selected_kind (parse_meta_dict meta) = Some ''Table''
          \<and> map_of (parse_meta_dict meta) ''Headers'' = Some (MStr v) \<longrightarrow>
        define_blocktype title meta defs =
          Inr (AList.update (strip title)
                 (parent_spec (parse_meta_dict meta), TableBlock,
                  Some (map (\<lambda>hset. map strip (split_char (CHR ''|'') hset))
                         (split_str2 (CHR ''|'') (CHR ''|'') v)), None) defs))"
  using define_blocktype_error_iff define_blocktype_plain define_blocktype_table by blast

theorem define_blocktype_selects_witness:
  "selected_kind (parse_meta_dict ''Text;NumList;ItemOnly'') = Some ''NumList''
   \<and> define_blocktype '' Steps '' ''Text;NumList;ItemOnly'' []
       = Inr [(''Steps'', Some ItemBlock, NumberedListBlock, None, None)]
   \<and> selected_kind (parse_meta_dict ''Table;Headers=A|B'') = Some ''Table''
   \<and> map_of (parse_meta_dict ''Table;Headers=A|B'') ''Headers'' = Some (MStr ''A|B'')
   \<and> define_blocktype ''MyTable'' ''Table;Headers=A|B'' []
       = Inr [(''MyTable'', None, TableBlock, Some [[''A'', ''B'']], None)]
   \<and> selected_kind (parse_meta_dict ''Table;Text'') = Some ''Table''
   \<and> \<not> has_key ''Headers'' (parse_meta_dict ''Table;Text'')
   \<and> is_config_error (define_blocktype ''T'' ''Table;Text'' [])"
proof -
  have a1: "selected_kind (parse_meta_dict ''Text;NumList;ItemOnly'') = Some ''NumList''" by code_simp
  have a2: "''NumList'' \<noteq> ''Table''" by simp
  have a3: "AList.update (strip '' Steps '')
              (parent_spec (parse_meta_dict ''Text;NumList;ItemOnly''), kind_class ''NumList'', None, None)
              ([] :: (string \<times> header_def) list)
            = [(''Steps'', Some ItemBlock, NumberedListBlock, None, None)]" by code_simp
  have b1: "selected_kind (parse_meta_dict ''Table;Headers=A|B'') = Some ''Table''" by code_simp
  have b2: "map_of (parse_meta_dict ''Table;Headers=A|B'') ''Headers'' = Some (MStr ''A|B'')" by code_simp
  have b3: "AList.update (strip ''MyTable'')
              (parent_spec (parse_meta_dict ''Table;Headers=A|B''), TableBlock,
               Some (map (\<lambda>hset. map strip (split_char (CHR ''|'') hset))
                      (split_str2 (CHR ''|'') (CHR ''|'') ''A|B'')), None)
              ([] :: (string \<times> header_def) list)
            = [(''MyTable'', None, TableBlock, Some [[''A'', ''B'']], None)]" by code_simp
  have c1: "selected_kind (parse_meta_dict ''Table;Text'') = Some ''Table''" by code_simp
  have c2: "\<not> has_key ''Headers'' (parse_meta_dict ''Table;Text'')" by code_simp
  from define_blocktype_selects [of "'' Steps ''" "''Text;NumList;ItemOnly''" "[]"] a1 a2
  have "define_blocktype '' Steps '' ''Text;NumList;ItemOnly'' [] =
          Inr (AList.update (strip '' Steps '')
                 (parent_spec (parse_meta_dict ''Text;NumList;ItemOnly''), kind_class ''NumList'', None, None) [])"
    by blast
  then have r1: "define_blocktype '' Steps '' ''Text;NumList;ItemOnly'' []
       = Inr [(''Steps'', Some ItemBlock, NumberedListBlock, None, None)]" unfolding a3 .
  from define_blocktype_selects [of "''MyTable''" "''Table;Headers=A|B''" "[]"] b1 b2
  have "define_blocktype ''MyTable'' ''Table;Headers=A|B'' [] =
          Inr (AList.update (strip ''MyTable'')
              (parent_spec (parse_meta_dict ''Table;Headers=A|B''), TableBlock,
               Some (map (\<lambda>hset. map strip (split_char (CHR ''|'') hset))
                      (split_str2 (CHR ''|'') (CHR ''|'') ''A|B'')), None) [])"
    by blast
  then have r2: "define_blocktype ''MyTable'' ''Table;Headers=A|B'' []
       = Inr [(''MyTable'', None, TableBlock, Some [[''A'', ''B'']], None)]" unfolding b3 .
  from define_blocktype_selects [of "''T''" "''Table;Text''" "[]"] c1 c2
  have r3: "is_config_error (define_blocktype ''T'' ''Table;Text'' [])" by blast
  from a1 r1 b1 b2 r2 c1 c2 r3 show ?thesis by (intro conjI)
qed

section \<open>The document tree\<close>

type_synonym node_id = nat

text \<open>\<open>OriginInfo(file, line)\<close>\<close>

record origin_info =
  origin_file :: string
  origin_line :: nat

text \<open>
  Modelled from the spec: the node classes (\<open>blocks.py\<close>) are not among the sources.
  A node has the attributes of the specification's \<open>Node\<close> (class tag, title, subtitle,
  body, origin, meta, children, parent), the header sets of a table, and the attributes
  that \<open>parser.py\<close> itself assigns on file and item nodes. Python's object references are
  indices into the list of all nodes made so far; a constructor appends the new node and
  enters it into the children of its parent, if it has one.
\<close>

record node =
  node_class :: block_class
  node_title :: string
  node_subtitle :: string
  node_body :: "string list"
  node_origin :: origin_info
  node_parent :: "node_id option"
  node_children :: "node_id list"
  node_meta :: string
  node_header_sets :: "string list list option"
  file_summary :: string
  file_group :: string
  file_footnotes :: "string list list"
  file_common_code :: "string list"
  item_aliases :: "string list"
  item_deprecated :: bool

text \<open>
  Modelled from the spec: the constructors of the node classes (\<open>blocks.py\<close>) are not
  among the sources. A constructor sets the attributes it is given, starts with no
  children and default values for the rest, and appends the node to the children of its
  parent; checks that the classes of \<open>blocks.py\<close> may make on their arguments are not
  part of the model.
\<close>

definition blank_node :: "block_class \<Rightarrow> string \<Rightarrow> string \<Rightarrow> string list \<Rightarrow> origin_info
    \<Rightarrow> node_id option \<Rightarrow> string \<Rightarrow> string list list option \<Rightarrow> node" where
  "blank_node cls title subtitle body origin parent meta hsets =
     \<lparr>node_class = cls, node_title = title, node_subtitle = subtitle, node_body = body,
      node_origin = origin, node_parent = parent, node_children = [], node_meta = meta,
      node_header_sets = hsets, file_summary = [], file_group = [], file_footnotes = [],
      file_common_code = [], item_aliases = [], item_deprecated = False\<rparr>"

definition new_block :: "block_class \<Rightarrow> string \<Rightarrow> string \<Rightarrow> string list \<Rightarrow> origin_info
    \<Rightarrow> node_id option \<Rightarrow> string \<Rightarrow> string list list option \<Rightarrow> node list \<Rightarrow> node list \<times> node_id" where
  "new_block cls title subtitle body origin parent meta hsets store =
     (let nid = length store;
          store1 = (case parent of
                      None \<Rightarrow> store
                    | Some p \<Rightarrow> store[p := (store ! p)\<lparr>node_children := node_children (store ! p) @ [nid]\<rparr>])
      in (store1 @ [blank_node cls title subtitle body origin parent meta hsets], nid))"

section \<open>The parser state\<close>

datatype severity = WARNING | FAIL

text \<open>
  Modelled from the spec: the error log (\<open>errorlog.py\<close>) is not among the sources. An
  entry is \<open>(file, line, message, severity)\<close>; the message is \<open>str(e)\<close> of the exception,
  kept here as the two arguments the exception was made of.
\<close>

record log_entry =
  entry_file :: string
  entry_line :: nat
  entry_block :: string
  entry_message :: string
  entry_level :: severity

text \<open>
  The fields of \<open>opts\<close> that \<open>_parse_block\<close> reads or assigns. \<open>opts.update_target()\<close>,
  called after some of the assignments, returns nothing the parser reads.
\<close>

record options =
  docs_dir :: string
  project_name :: string
  target_profile :: string
  gen_files :: bool
  gen_toc :: bool
  gen_index :: bool
  gen_topics :: bool
  gen_cheat :: bool
  gen_sidebar :: bool

record parser_state =
  strict :: bool
  opts :: options
  nodes :: "node list"
  file_blocks :: "node_id list"
  curr_file_block :: "node_id option"
  curr_section :: "node_id option"
  curr_subsection :: "node_id option"
  curr_item :: "node_id option"
  curr_parent :: "node_id option"
  ignored_file_pats :: "string list"
  ignored_files :: "(string \<times> bool) list"
  priority_files :: "string list"
  items_by_name :: "(string \<times> node_id) list"
  header_defs :: "(string \<times> header_def) list"
  errorlog :: "log_entry list"

text \<open>
  What the parser asks of its surroundings: the two uses of \<open>glob.glob\<close> (with and
  without \<open>recursive=True\<close>), the answer of \<open>opts.set_target\<close>, and the lines of the
  configuration file when it exists.
\<close>

record env =
  glob_recursive :: "string \<Rightarrow> string list"
  glob_glob :: "string \<Rightarrow> string list"
  set_target :: "string \<Rightarrow> bool"
  rcfile_lines :: "string list option"

definition RCFILE :: string where
  "RCFILE = ''.openscad_docsgen_rc''"

text \<open>
  \<open>self.curr_parent = self.curr_item.parent; self.curr_item = None\<close> when an item is
  open, nothing otherwise.
\<close>

definition close_item :: "parser_state \<Rightarrow> parser_state" where
  "close_item s =
     (case curr_item s of
        None \<Rightarrow> s
      | Some i \<Rightarrow> s\<lparr>curr_parent := node_parent (nodes s ! i), curr_item := None\<rparr>)"

function skip_lines :: "string list \<Rightarrow> nat \<Rightarrow> parser_state \<Rightarrow> parser_state \<times> nat" where
  "skip_lines lines line_num s =
     (if line_num < length lines then
        (let line = lines ! line_num;
             s1 = (if curr_item s \<noteq> None \<and> \<not> startswith line ''//'' then close_item s else s)
         in if header_pat_match line \<noteq> None then (s1, line_num)
            else skip_lines lines (line_num + 1) s1)
      else (close_item s, line_num))"
  by pat_completeness auto
termination
  by (relation "measure (\<lambda>(lines, n, s). length lines - n)") auto

declare skip_lines.simps [simp del]

text \<open>\<open>cls(title, subtitle, body, origin, parent=..., ...)\<close> on the state.\<close>

definition mk_block :: "block_class \<Rightarrow> string \<Rightarrow> string \<Rightarrow> string list \<Rightarrow> origin_info
    \<Rightarrow> node_id option \<Rightarrow> string \<Rightarrow> string list list option \<Rightarrow> parser_state \<Rightarrow> parser_state \<times> node_id" where
  "mk_block cls title subtitle body origin parent meta hsets s =
     (case new_block cls title subtitle body origin parent meta hsets (nodes s) of
        (store, nid) \<Rightarrow> (s\<lparr>nodes := store\<rparr>, nid))"

definition mkfilenode :: "origin_info \<Rightarrow> parser_state \<Rightarrow> parser_state" where
  "mkfilenode origin s =
     (if curr_file_block s = None then
        (case mk_block FileBlock ''LibFile'' (origin_file origin) [] origin None [] None s of
           (s1, fid) \<Rightarrow>
             s1\<lparr>curr_file_block := Some fid, curr_parent := Some fid,
                file_blocks := file_blocks s1 @ [fid]\<rparr>)
      else s)"


section \<open>Dispatch on the title\<close>

text \<open>
  The body of the \<open>try\<close> statement of \<open>_parse_block\<close>, up to the end of the \<open>if\<close>/\<open>elif\<close>
  chain. A branch returns the exception it raises, if any, with the state it leaves:
  what a branch has assigned before it raises stays assigned.
\<close>

definition ok :: "parser_state \<Rightarrow> failure option \<times> parser_state" where
  "ok s = (None, s)"

definition raise :: "failure \<Rightarrow> parser_state \<Rightarrow> failure option \<times> parser_state" where
  "raise e s = (Some e, s)"

text \<open>\<open>str(n)\<close> of a natural number.\<close>

fun str_of_nat :: "nat \<Rightarrow> string" where
  "str_of_nat n =
     (if n < 10 then [char_of (48 + n)]
      else str_of_nat (n div 10) @ [char_of (48 + n mod 10)])"

text \<open>
  \<open>s.upper()\<close>, on the letters \<open>a\<close> to \<open>z\<close>. The result is only compared with words in
  capital ASCII letters; no other character has an upper case within these words.
\<close>

definition upper :: "string \<Rightarrow> string" where
  "upper s = map (\<lambda>c. if CHR ''a'' \<le> c \<and> c \<le> CHR ''z'' then char_of (of_char c - (32::nat)) else c) s"

text \<open>\<open>s.rstrip("/")\<close>\<close>

definition rstrip_slash :: "string \<Rightarrow> string" where
  "rstrip_slash s = rev (dropWhile (\<lambda>c. c = CHR ''/'') (rev s))"

text \<open>\<open>s.split(c, 1)\<close> as a list.\<close>

definition split_max1 :: "char \<Rightarrow> string \<Rightarrow> string list" where
  "split_max1 c s = (if c \<in> set s then (case split_first c s of (a, b) \<Rightarrow> [a, b]) else [s])"

definition upd_node :: "node_id \<Rightarrow> (node \<Rightarrow> node) \<Rightarrow> parser_state \<Rightarrow> parser_state" where
  "upd_node i f s = s\<lparr>nodes := (nodes s)[i := f (nodes s ! i)]\<rparr>"

definition not_in_rcfile :: "string \<Rightarrow> failure" where
  "not_in_rcfile title = DocsGenException title (''Block disallowed outside of '' @ RCFILE @ '' file:'')"

definition body_not_supported :: "string \<Rightarrow> failure" where
  "body_not_supported title = DocsGenException title ''Body not supported, while declaring block:''"

definition subtitle_missing :: "string \<Rightarrow> failure" where
  "subtitle_missing title = DocsGenException title ''Must provide a subtitle when declaring block:''"

definition do_DefineHeader :: "string \<Rightarrow> string \<Rightarrow> parser_state \<Rightarrow> failure option \<times> parser_state" where
  "do_DefineHeader subtitle meta s =
     (case define_blocktype subtitle meta (header_defs s) of
        Inl e \<Rightarrow> raise e s
      | Inr d \<Rightarrow> ok (s\<lparr>header_defs := d\<rparr>))"

definition do_IgnoreFiles :: "env \<Rightarrow> string \<Rightarrow> string \<Rightarrow> string list \<Rightarrow> origin_info \<Rightarrow> parser_state
    \<Rightarrow> failure option \<times> parser_state" where
  "do_IgnoreFiles env title subtitle body origin s =
     (if origin_file origin \<noteq> RCFILE then raise (not_in_rcfile title) s
      else
        (let body1 = (if subtitle \<noteq> [] then subtitle # body else body);
             pats = ignored_file_pats s @ map strip body1
         in ok (s\<lparr>ignored_file_pats := pats,
                   ignored_files := fold (\<lambda>fname d. AList.update fname True d)
                                      (concat (map (glob_recursive env) pats)) []\<rparr>)))"

definition do_PrioritizeFiles :: "env \<Rightarrow> string \<Rightarrow> string \<Rightarrow> string list \<Rightarrow> origin_info \<Rightarrow> parser_state
    \<Rightarrow> failure option \<times> parser_state" where
  "do_PrioritizeFiles env title subtitle body origin s =
     (if origin_file origin \<noteq> RCFILE then raise (not_in_rcfile title) s
      else
        (let body1 = (if subtitle \<noteq> [] then subtitle # body else body)
         in ok (s\<lparr>priority_files := concat (map (\<lambda>line. glob_glob env (strip line)) body1)\<rparr>)))"

definition do_DocsDirectory :: "string \<Rightarrow> string \<Rightarrow> string list \<Rightarrow> origin_info \<Rightarrow> parser_state
    \<Rightarrow> failure option \<times> parser_state" where
  "do_DocsDirectory title subtitle body origin s =
     (if origin_file origin \<noteq> RCFILE then raise (not_in_rcfile title) s
      else if body \<noteq> [] then raise (body_not_supported title) s
      else ok (s\<lparr>opts := (opts s)\<lparr>docs_dir := rstrip_slash (strip subtitle)\<rparr>\<rparr>))"

definition do_ProjectName :: "string \<Rightarrow> string \<Rightarrow> string list \<Rightarrow> origin_info \<Rightarrow> parser_state
    \<Rightarrow> failure option \<times> parser_state" where
  "do_ProjectName title subtitle body origin s =
     (if origin_file origin \<noteq> RCFILE then raise (not_in_rcfile title) s
      else if body \<noteq> [] then raise (body_not_supported title) s
      else ok (s\<lparr>opts := (opts s)\<lparr>project_name := strip subtitle\<rparr>\<rparr>))"

definition do_TargetProfile :: "env \<Rightarrow> string \<Rightarrow> string \<Rightarrow> string list \<Rightarrow> origin_info \<Rightarrow> parser_state
    \<Rightarrow> failure option \<times> parser_state" where
  "do_TargetProfile env title subtitle body origin s =
     (if origin_file origin \<noteq> RCFILE then raise (not_in_rcfile title) s
      else if body \<noteq> [] then raise (body_not_supported title) s
      else if \<not> set_target env (strip subtitle) then raise (body_not_supported title) s
      else ok (s\<lparr>opts := (opts s)\<lparr>target_profile := strip subtitle\<rparr>\<rparr>))"

text \<open>The loop over the parts of a \<open>GenerateDocs\<close> subtitle; it stops at the first unknown part.\<close>

fun generate_docs_parts :: "string \<Rightarrow> string list \<Rightarrow> options \<Rightarrow> failure option \<times> options" where
  "generate_docs_parts title [] o1 = (None, o1)"
| "generate_docs_parts title (part # parts) o1 =
     (let orig_part = strip part; p = upper orig_part in
      if p = ''FILES'' then generate_docs_parts title parts (o1\<lparr>gen_files := True\<rparr>)
      else if p = ''TOC'' then generate_docs_parts title parts (o1\<lparr>gen_toc := True\<rparr>)
      else if p = ''INDEX'' then generate_docs_parts title parts (o1\<lparr>gen_index := True\<rparr>)
      else if p = ''TOPICS'' then generate_docs_parts title parts (o1\<lparr>gen_topics := True\<rparr>)
      else if p \<in> set [''CHEAT'', ''CHEATSHEET''] then generate_docs_parts title parts (o1\<lparr>gen_cheat := True\<rparr>)
      else if p = ''SIDEBAR'' then generate_docs_parts title parts (o1\<lparr>gen_sidebar := True\<rparr>)
      else (Some (DocsGenException title
                    (''Unknown type '' @ [CHR 0x22] @ orig_part @ [CHR 0x22] @ '', while declaring block:'')), o1))"

definition do_GenerateDocs :: "string \<Rightarrow> string \<Rightarrow> string list \<Rightarrow> origin_info \<Rightarrow> parser_state
    \<Rightarrow> failure option \<times> parser_state" where
  "do_GenerateDocs title subtitle body origin s =
     (if origin_file origin \<noteq> RCFILE then raise (not_in_rcfile title) s
      else if body \<noteq> [] then raise (body_not_supported title) s
      else if \<not> (gen_files (opts s) \<or> gen_toc (opts s) \<or> gen_index (opts s)
                 \<or> gen_topics (opts s) \<or> gen_cheat (opts s)) then
        (case generate_docs_parts title (split_char (CHR '','') subtitle) (opts s) of
           (e, o1) \<Rightarrow> (e, s\<lparr>opts := o1\<rparr>))
      else ok s)"

definition do_File :: "string \<Rightarrow> string \<Rightarrow> string list \<Rightarrow> origin_info \<Rightarrow> parser_state
    \<Rightarrow> failure option \<times> parser_state" where
  "do_File title subtitle body origin s =
     (if curr_file_block s \<noteq> None then
        raise (DocsGenException title ''File/Libfile block already specified, while declaring block:'') s
      else
        (case mk_block FileBlock title subtitle body origin None [] None s of
           (s1, fid) \<Rightarrow>
             ok (s1\<lparr>curr_file_block := Some fid, curr_section := None, curr_subsection := None,
                    curr_parent := Some fid, file_blocks := file_blocks s1 @ [fid]\<rparr>)))"

definition do_Section :: "string \<Rightarrow> string \<Rightarrow> string list \<Rightarrow> origin_info \<Rightarrow> parser_state
    \<Rightarrow> failure option \<times> parser_state" where
  "do_Section title subtitle body origin s =
     (let s1 = mkfilenode origin s in
      case mk_block SectionBlock title subtitle body origin (curr_file_block s1) [] None s1 of
        (s2, sid) \<Rightarrow>
          ok (s2\<lparr>curr_section := Some sid, curr_subsection := None, curr_parent := Some sid\<rparr>))"

definition do_Subsection :: "string \<Rightarrow> string \<Rightarrow> string list \<Rightarrow> origin_info \<Rightarrow> parser_state
    \<Rightarrow> failure option \<times> parser_state" where
  "do_Subsection title subtitle body origin s =
     (if curr_section s = None then
        raise (DocsGenException title ''Must declare a Section before declaring block:'') s
      else if subtitle = [] then raise (subtitle_missing title) s
      else
        (case mk_block SubsectionBlock title subtitle body origin (curr_section s) [] None s of
           (s1, sid) \<Rightarrow> ok (s1\<lparr>curr_subsection := Some sid, curr_parent := Some sid\<rparr>)))"

definition do_Includes :: "string \<Rightarrow> string \<Rightarrow> string list \<Rightarrow> origin_info \<Rightarrow> parser_state
    \<Rightarrow> failure option \<times> parser_state" where
  "do_Includes title subtitle body origin s =
     (let s1 = mkfilenode origin s in
      ok (fst (mk_block IncludesBlock title subtitle body origin (curr_file_block s1) [] None s1)))"

text \<open>An assignment to an attribute of \<open>self.curr_file_block\<close>, after \<open>_mkfilenode\<close>.\<close>

definition set_file_attr :: "(node \<Rightarrow> node) \<Rightarrow> origin_info \<Rightarrow> parser_state \<Rightarrow> failure option \<times> parser_state" where
  "set_file_attr f origin s =
     (let s1 = mkfilenode origin s in
      case curr_file_block s1 of
        None \<Rightarrow> raise AttributeError s1
      | Some fid \<Rightarrow> ok (upd_node fid f s1))"

definition do_FileSummary :: "string \<Rightarrow> string \<Rightarrow> origin_info \<Rightarrow> parser_state
    \<Rightarrow> failure option \<times> parser_state" where
  "do_FileSummary title subtitle origin s =
     (if subtitle = [] then raise (subtitle_missing title) s
      else set_file_attr (\<lambda>n. n\<lparr>file_summary := strip subtitle\<rparr>) origin s)"

definition do_FileGroup :: "string \<Rightarrow> string \<Rightarrow> origin_info \<Rightarrow> parser_state
    \<Rightarrow> failure option \<times> parser_state" where
  "do_FileGroup title subtitle origin s =
     (if subtitle = [] then raise (subtitle_missing title) s
      else set_file_attr (\<lambda>n. n\<lparr>file_group := strip subtitle\<rparr>) origin s)"

definition do_FileFootnotes :: "string \<Rightarrow> string \<Rightarrow> origin_info \<Rightarrow> parser_state
    \<Rightarrow> failure option \<times> parser_state" where
  "do_FileFootnotes title subtitle origin s =
     (if subtitle = [] then raise (subtitle_missing title) s
      else set_file_attr
             (\<lambda>n. n\<lparr>file_footnotes :=
                       map (\<lambda>part. map strip (split_max1 (CHR ''='') (strip part)))
                           (split_char (CHR '';'') subtitle)\<rparr>) origin s)"

definition do_CommonCode :: "string list \<Rightarrow> origin_info \<Rightarrow> parser_state
    \<Rightarrow> failure option \<times> parser_state" where
  "do_CommonCode body origin s =
     set_file_attr (\<lambda>n. n\<lparr>file_common_code := file_common_code n @ body\<rparr>) origin s"

text \<open>
  The loops of \<open>Figures\<close> and \<open>Examples\<close>: one block for each body line, the subtitle on
  the first of them only.
\<close>

fun mk_each :: "block_class \<Rightarrow> string \<Rightarrow> string \<Rightarrow> string list \<Rightarrow> origin_info \<Rightarrow> node_id option
    \<Rightarrow> string \<Rightarrow> parser_state \<Rightarrow> parser_state" where
  "mk_each cls title subtitle [] origin parent meta s = s"
| "mk_each cls title subtitle (line # body) origin parent meta s =
     mk_each cls title [] body origin parent meta
       (fst (mk_block cls title subtitle [line] origin parent meta None s))"

text \<open>The two callbacks of the built-in rules.\<close>

definition run_callback :: "callback \<Rightarrow> string \<Rightarrow> parser_state \<Rightarrow> failure option \<times> parser_state" where
  "run_callback cb subtitle s =
     (case curr_item s of
        None \<Rightarrow> raise AttributeError s
      | Some item \<Rightarrow>
          (case cb of
             status_block_cb \<Rightarrow>
               ok (upd_node item (\<lambda>n. n\<lparr>item_deprecated := contains subtitle ''DEPRECATED''\<rparr>) s)
           | alias_block_cb \<Rightarrow>
               (let aliases = map strip (split_char (CHR '','') subtitle);
                    s1 = upd_node item (\<lambda>n. n\<lparr>item_aliases := item_aliases n @ aliases\<rparr>) s
                in ok (s1\<lparr>items_by_name :=
                            fold (\<lambda>alias d. AList.update alias item d) aliases (items_by_name s1)\<rparr>))))"

text \<open>\<open>isinstance(self.curr_parent, parcls)\<close>\<close>

definition parent_isinstance :: "parser_state \<Rightarrow> block_class \<Rightarrow> bool" where
  "parent_isinstance s parcls =
     (case curr_parent s of None \<Rightarrow> False | Some p \<Rightarrow> node_class (nodes s ! p) = parcls)"

definition do_defined :: "header_def \<Rightarrow> string \<Rightarrow> string \<Rightarrow> string \<Rightarrow> string list \<Rightarrow> origin_info
    \<Rightarrow> node_id option \<Rightarrow> parser_state \<Rightarrow> failure option \<times> parser_state" where
  "do_defined hdef title meta subtitle body origin parent s =
     (case hdef of (parcls, cls, data, cb) \<Rightarrow>
        if (case parcls of None \<Rightarrow> True | Some c \<Rightarrow> parent_isinstance s c) then
          (let s1 =
             (if cls \<in> set [GenericBlock, LabelBlock, TextBlock, NumberedListBlock, BulletListBlock] then
                fst (mk_block cls title subtitle body origin parent [] None s)
              else if cls = TableBlock then
                fst (mk_block cls title subtitle body origin parent [] data s)
              else if cls \<in> set [FigureBlock, ExampleBlock] then
                fst (mk_block cls title subtitle body origin parent meta None s)
              else s)
           in case cb of None \<Rightarrow> ok s1 | Some c \<Rightarrow> run_callback c subtitle s1)
        else ok s)"

definition redeclared :: "string \<Rightarrow> string \<Rightarrow> origin_info \<Rightarrow> failure" where
  "redeclared title subtitle prevorig =
     DocsGenException title
       (''Previous declaration of '' @ [CHR 0x60] @ subtitle @ [CHR 0x60] @ '' at ''
          @ origin_file prevorig @ '':'' @ str_of_nat (origin_line prevorig) @ '', Redeclared:'')"

text \<open>
  The first statements of the branch for \<open>Constant\<close>, \<open>Function\<close>, \<open>Module\<close> and
  \<open>Function&Module\<close>: \<open>_mkfilenode\<close>, the anonymous section when none is open, and
  \<open>parent = self.curr_parent = self.curr_section\<close>.
\<close>

definition item_context :: "origin_info \<Rightarrow> parser_state \<Rightarrow> parser_state" where
  "item_context origin s =
     (let s1 = mkfilenode origin s;
          s2 = (if curr_section s1 = None then
                  (case mk_block SectionBlock ''Section'' [] [] origin (curr_file_block s1) [] None s1 of
                     (t, sid) \<Rightarrow> t\<lparr>curr_section := Some sid\<rparr>)
                else s1)
      in s2\<lparr>curr_parent := curr_section s2\<rparr>)"

definition do_Item :: "string \<Rightarrow> string \<Rightarrow> string list \<Rightarrow> origin_info \<Rightarrow> parser_state
    \<Rightarrow> failure option \<times> parser_state" where
  "do_Item title subtitle body origin s =
     (let s3 = item_context origin s in
      case map_of (items_by_name s3) subtitle of
        Some prev \<Rightarrow> raise (redeclared title subtitle (node_origin (nodes s3 ! prev))) s3
      | None \<Rightarrow>
          (case mk_block ItemBlock title subtitle body origin (curr_parent s3) [] None s3 of
             (s4, item) \<Rightarrow>
               ok (s4\<lparr>items_by_name := AList.update subtitle item (items_by_name s4),
                      curr_item := Some item, curr_parent := Some item\<rparr>)))"

definition dispatch :: "env \<Rightarrow> string \<Rightarrow> string \<Rightarrow> string \<Rightarrow> string list \<Rightarrow> origin_info \<Rightarrow> parser_state
    \<Rightarrow> failure option \<times> parser_state" where
  "dispatch env title meta subtitle body origin s =
     (let parent = curr_parent s in
      if title = ''DefineHeader'' then do_DefineHeader subtitle meta s
      else if title = ''IgnoreFiles'' then do_IgnoreFiles env title subtitle body origin s
      else if title = ''PrioritizeFiles'' then do_PrioritizeFiles env title subtitle body origin s
      else if title = ''DocsDirectory'' then do_DocsDirectory title subtitle body origin s
      else if title = ''ProjectName'' then do_ProjectName title subtitle body origin s
      else if title = ''TargetProfile'' then do_TargetProfile env title subtitle body origin s
      else if title = ''GenerateDocs'' then do_GenerateDocs title subtitle body origin s
      else if title = ''vim'' \<or> title = ''emacs'' then ok s
      else if title \<in> set [''File'', ''LibFile''] then do_File title subtitle body origin s
      else if curr_file_block s = None \<and> strict s then
        raise (DocsGenException title ''Must declare File or LibFile block before declaring block:'') s
      else if title = ''Section'' then do_Section title subtitle body origin s
      else if title = ''Subsection'' then do_Subsection title subtitle body origin s
      else if title = ''Includes'' then do_Includes title subtitle body origin s
      else if title = ''FileSummary'' then do_FileSummary title subtitle origin s
      else if title = ''FileGroup'' then do_FileGroup title subtitle origin s
      else if title = ''FileFootnotes'' then do_FileFootnotes title subtitle origin s
      else if title = ''CommonCode'' then do_CommonCode body origin s
      else if title = ''Figure'' then
        ok (fst (mk_block FigureBlock title subtitle body origin parent meta None (mkfilenode origin s)))
      else if title = ''Example'' then
        (if curr_item s \<noteq> None then
           ok (fst (mk_block ExampleBlock title subtitle body origin parent meta None s))
         else ok s)
      else if title = ''Figures'' then
        ok (mk_each FigureBlock ''Figure'' subtitle body origin parent meta (mkfilenode origin s))
      else if title = ''Examples'' then
        (if curr_item s \<noteq> None then
           ok (mk_each ExampleBlock ''Example'' subtitle body origin parent meta s)
         else ok s)
      else if has_key title (header_defs s) then
        (case map_of (header_defs s) title of
           None \<Rightarrow> ok s
         | Some hdef \<Rightarrow> do_defined hdef title meta subtitle body origin parent s)
      else if title \<in> set [''Constant'', ''Function'', ''Module'', ''Function&Module''] then
        do_Item title subtitle body origin s
      else if title = ''Topics'' then
        (if curr_item s \<noteq> None then
           ok (fst (mk_block TopicsBlock title subtitle body origin parent [] None s))
         else ok s)
      else if title = ''See Also'' then
        (if curr_item s \<noteq> None then
           ok (fst (mk_block SeeAlsoBlock title subtitle body origin parent [] None s))
         else ok s)
      else raise (DocsGenException title ''Unrecognized block:'') s)"

section \<open>\<open>_parse_block\<close> and \<open>parse_lines\<close>\<close>

text \<open>\<open>errorlog.add_entry(origin.file, origin.line, str(e), ErrorLog.FAIL)\<close>\<close>

definition add_entry :: "origin_info \<Rightarrow> string \<Rightarrow> string \<Rightarrow> parser_state \<Rightarrow> parser_state" where
  "add_entry origin block msg s =
     s\<lparr>errorlog := errorlog s @
         [\<lparr>entry_file = origin_file origin, entry_line = origin_line origin,
           entry_block = block, entry_message = msg, entry_level = FAIL\<rparr>]\<rparr>"

text \<open>
  \<open>_parse_block\<close>. The result is \<open>Inr\<close> of the state and the index returned, or \<open>Inl\<close> of
  an exception that leaves the call, with the state at that moment. The body loop runs
  before the \<open>try\<close> statement; the \<open>except\<close> clause catches \<open>DocsGenException\<close> only.
\<close>

definition parse_block :: "env \<Rightarrow> string list \<Rightarrow> nat \<Rightarrow> string \<Rightarrow> parser_state
    \<Rightarrow> (failure \<times> parser_state) + (parser_state \<times> nat)" where
  "parse_block env lines line_num0 src_file s0 =
     (case skip_lines lines line_num0 s0 of (s1, hdr_line_num) \<Rightarrow>
        if hdr_line_num \<ge> length lines then Inr (s1, hdr_line_num)
        else
          case header_pat_match (lines ! hdr_line_num) of
            None \<Rightarrow> Inr (s1, hdr_line_num)
          | Some m \<Rightarrow>
              (case header_fields m of (title, meta, subtitle) \<Rightarrow>
               case body_loop title lines (hdr_line_num + 1) True 2 [] of
                 Inl e \<Rightarrow> Inl (e, s1)
               | Inr (body, line_num) \<Rightarrow>
                   (let origin = \<lparr>origin_file = src_file, origin_line = hdr_line_num + 1\<rparr> in
                    case dispatch env title meta subtitle body origin s1 of
                      (Some (DocsGenException b msg), s2) \<Rightarrow> Inr (add_entry origin b msg s2, line_num)
                    | (Some AttributeError, s2) \<Rightarrow> Inl (AttributeError, s2)
                    | (None, s2) \<Rightarrow>
                        Inr (skip_lines lines line_num
                               (if line_num \<ge> length lines \<or> \<not> startswith (lines ! line_num) ''//''
                                then close_item s2 else s2)))))"


subsection \<open>Progress of the index\<close>

lemma skip_lines_bounds:
  "skip_lines lines n s = (s', n') \<Longrightarrow>
     n \<le> n' \<and> (n \<le> length lines \<longrightarrow> n' \<le> length lines)
     \<and> (n' < length lines \<longrightarrow> header_pat_match (lines ! n') \<noteq> None)"
proof (induction lines n s rule: skip_lines.induct)
  case (1 lines line_num s)
  show ?case
  proof (cases "line_num < length lines")
    case False
    with "1.prems" show ?thesis by (subst (asm) skip_lines.simps) auto
  next
    case lt: True
    define s1 where "s1 = (if curr_item s \<noteq> None \<and> \<not> startswith (lines ! line_num) ''//''
                           then close_item s else s)"
    show ?thesis
    proof (cases "header_pat_match (lines ! line_num) \<noteq> None")
      case True
      with lt "1.prems" have "n' = line_num"
        by (subst (asm) skip_lines.simps) (simp add: Let_def)
      with lt True show ?thesis by simp
    next
      case False
      with lt "1.prems" have rec: "skip_lines lines (line_num + 1) s1 = (s', n')"
        by (subst (asm) skip_lines.simps) (simp add: Let_def s1_def)
      from "1.IH" [OF lt refl _ _ rec] False have
        "line_num + 1 \<le> n' \<and> (line_num + 1 \<le> length lines \<longrightarrow> n' \<le> length lines)
          \<and> (n' < length lines \<longrightarrow> header_pat_match (lines ! n') \<noteq> None)"
        by (simp add: s1_def)
      with lt show ?thesis by simp
    qed
  qed
qed

lemma skip_lines_at_end: "length lines \<le> n \<Longrightarrow> skip_lines lines n s = (close_item s, n)"
  by (subst skip_lines.simps) simp

lemma parse_block_progress:
  assumes "parse_block env lines n src s = Inr (s', n')" and "n < length lines"
  shows "n < n'"
proof -
  obtain s1 h where sk: "skip_lines lines n s = (s1, h)" by (cases "skip_lines lines n s")
  from skip_lines_bounds [OF sk] have h: "n \<le> h"
    and hm: "h < length lines \<Longrightarrow> header_pat_match (lines ! h) \<noteq> None" by simp_all
  show ?thesis
  proof (cases "length lines \<le> h")
    case True
    with assms sk have "n' = h" by (simp add: parse_block_def)
    with True assms(2) show ?thesis by simp
  next
    case False
    then have hl: "h < length lines" by simp
    from hm [OF hl] obtain m where m: "header_pat_match (lines ! h) = Some m" by auto
    obtain title meta subtitle where hf: "header_fields m = (title, meta, subtitle)"
      by (cases "header_fields m")
    show ?thesis
    proof (cases "body_loop title lines (h + 1) True 2 []")
      case (Inl e)
      with assms(1) sk False m hf show ?thesis by (simp add: parse_block_def)
    next
      case (Inr r)
      obtain body ln where r: "r = (body, ln)" by (cases r)
      from body_loop_mono Inr r have ln: "h + 1 \<le> ln" by blast
      define origin where "origin = \<lparr>origin_file = src, origin_line = h + 1\<rparr>"
      obtain e s2 where d: "dispatch env title meta subtitle body origin s1 = (e, s2)"
        by (cases "dispatch env title meta subtitle body origin s1")
      show ?thesis
      proof (cases e)
        case None
        define s3 where "s3 = (if ln \<ge> length lines \<or> \<not> startswith (lines ! ln) ''//''
                                then close_item s2 else s2)"
        from assms(1) sk False m hf Inr r d None have "skip_lines lines ln s3 = (s', n')"
          by (simp add: parse_block_def origin_def s3_def)
        from skip_lines_bounds [OF this] have "ln \<le> n'" by simp
        with ln h show ?thesis by simp
      next
        case (Some f)
        with assms(1) sk False m hf Inr r d have "n' = ln"
          by (cases f) (simp_all add: parse_block_def origin_def)
        with ln h show ?thesis by simp
      qed
    qed
  qed
qed

lemma parse_block_at_end:
  assumes "length lines \<le> n"
  shows "parse_block env lines n src s = Inr (close_item s, n)"
  using assms by (simp add: parse_block_def skip_lines_at_end)

function parse_lines :: "env \<Rightarrow> string list \<Rightarrow> nat \<Rightarrow> string \<Rightarrow> parser_state
    \<Rightarrow> (failure \<times> parser_state) + parser_state" where
  "parse_lines env lines line_num src_file s =
     (if line_num < length lines then
        (case parse_block env lines line_num src_file s of
           Inl e \<Rightarrow> Inl e
         | Inr (s1, line_num1) \<Rightarrow> parse_lines env lines line_num1 src_file s1)
      else Inr s)"
  by pat_completeness auto
termination
proof (relation "measure (\<lambda>(env, lines, n, src, s). length lines - n)")
  show "wf (measure (\<lambda>(env, lines, n, src, s). length lines - n))" by simp
next
  fix env lines line_num src_file s x2 s1 line_num1
  assume "line_num < length lines" "parse_block env lines line_num src_file s = Inr x2"
    "(s1, line_num1) = x2"
  then have "line_num < line_num1" using parse_block_progress [of env lines line_num src_file s s1 line_num1]
    by simp
  with \<open>line_num < length lines\<close>
  show "((env, lines, line_num1, src_file, s1), (env, lines, line_num, src_file, s))
          \<in> measure (\<lambda>(env, lines, n, src, s). length lines - n)" by simp
qed

declare parse_lines.simps [simp del]

text \<open>The same loop with a bound on the number of its iterations: \<open>None\<close> when the bound is used up.\<close>

fun parse_lines_bounded :: "nat \<Rightarrow> env \<Rightarrow> string list \<Rightarrow> nat \<Rightarrow> string \<Rightarrow> parser_state
    \<Rightarrow> ((failure \<times> parser_state) + parser_state) option" where
  "parse_lines_bounded k env lines line_num src_file s =
     (if line_num < length lines then
        (case k of
           0 \<Rightarrow> None
         | Suc k1 \<Rightarrow>
             (case parse_block env lines line_num src_file s of
                Inl e \<Rightarrow> Some (Inl e)
              | Inr (s1, line_num1) \<Rightarrow> parse_lines_bounded k1 env lines line_num1 src_file s1))
      else Some (Inr s))"

section \<open>A new parser\<close>

definition builtin_header_defs :: "(string \<times> header_def) list" where
  "builtin_header_defs =
     [(''Status'', (Some ItemBlock, LabelBlock, None, Some status_block_cb)),
      (''Alias'', (Some ItemBlock, LabelBlock, None, Some alias_block_cb)),
      (''Aliases'', (Some ItemBlock, LabelBlock, None, Some alias_block_cb)),
      (''Arguments'', (Some ItemBlock, TableBlock,
         Some [[''^<abbr title='' @ [CHR 0x22] @ ''These args can be used by position or by name.''
                  @ [CHR 0x22] @ ''>By&nbsp;Position</abbr>'', ''What it does''],
               [''^<abbr title='' @ [CHR 0x22] @ ''These args must be used by name, ie: name=value''
                  @ [CHR 0x22] @ ''>By&nbsp;Name</abbr>'', ''What it does'']],
         None))]"

definition default_lines :: "string list" where
  "default_lines =
     [''// DefineHeader(Text): Text'',
      ''// DefineHeader(Text;ItemOnly): Description'',
      ''// DefineHeader(BulletList;ItemOnly): Usage'']"

definition reset_header_defs :: "env \<Rightarrow> parser_state \<Rightarrow> (failure \<times> parser_state) + parser_state" where
  "reset_header_defs env s =
     (case parse_lines env default_lines 0 ''Defaults'' (s\<lparr>header_defs := builtin_header_defs\<rparr>) of
        Inl e \<Rightarrow> Inl e
      | Inr s1 \<Rightarrow>
          (case rcfile_lines env of
             None \<Rightarrow> Inr s1
           | Some ls \<Rightarrow> parse_lines env (map (\<lambda>line. ''// '' @ line) ls) 0 RCFILE s1))"

text \<open>\<open>DocsGenParser(opts)\<close>: the fields as \<open>__init__\<close> sets them, then \<open>_reset_header_defs\<close>.\<close>

definition init_state :: "bool \<Rightarrow> options \<Rightarrow> parser_state" where
  "init_state strict0 opts0 =
     \<lparr>strict = strict0, opts = opts0, nodes = [], file_blocks = [], curr_file_block = None,
      curr_section = None, curr_subsection = None, curr_item = None, curr_parent = None,
      ignored_file_pats = [], ignored_files = [], priority_files = [], items_by_name = [],
      header_defs = [], errorlog = []\<rparr>"

definition new_parser :: "env \<Rightarrow> bool \<Rightarrow> options \<Rightarrow> (failure \<times> parser_state) + parser_state" where
  "new_parser env strict0 opts0 = reset_header_defs env (init_state strict0 opts0)"

text \<open>An environment without files, and options with nothing chosen.\<close>

definition no_files :: env where
  "no_files = \<lparr>glob_recursive = (\<lambda>_. []), glob_glob = (\<lambda>_. []), set_target = (\<lambda>_. False),
       rcfile_lines = None\<rparr>"

definition no_options :: options where
  "no_options = \<lparr>docs_dir = [], project_name = [], target_profile = [], gen_files = False,
       gen_toc = False, gen_index = False, gen_topics = False, gen_cheat = False, gen_sidebar = False\<rparr>"

text \<open>A fresh parser that parses one unit.\<close>

definition parse_unit :: "bool \<Rightarrow> string list \<Rightarrow> string \<Rightarrow> (failure \<times> parser_state) + parser_state" where
  "parse_unit strict0 lines src_file =
     (case new_parser no_files strict0 no_options of
        Inl e \<Rightarrow> Inl e
      | Inr s \<Rightarrow> parse_lines no_files lines 0 src_file s)"

section \<open>Claims about the parse loop\<close>

declare parse_lines_bounded.simps [simp del]

lemma parse_lines_bounded_enough:
  "length lines - n \<le> k \<Longrightarrow>
     parse_lines_bounded k env lines n src s = Some (parse_lines env lines n src s)"
proof (induction k arbitrary: n s)
  case 0
  then have "\<not> n < length lines" by simp
  then show ?case by (subst parse_lines.simps, subst parse_lines_bounded.simps) simp
next
  case (Suc k)
  show ?case
  proof (cases "n < length lines")
    case False
    then show ?thesis by (subst parse_lines.simps, subst parse_lines_bounded.simps) simp
  next
    case True
    show ?thesis
    proof (cases "parse_block env lines n src s")
      case (Inl e)
      with True show ?thesis by (subst parse_lines.simps, subst parse_lines_bounded.simps) simp
    next
      case (Inr r)
      obtain s1 n1 where r: "r = (s1, n1)" by (cases r)
      from parse_block_progress Inr r True have "n < n1" by blast
      with Suc.prems have "length lines - n1 \<le> k" by simp
      from Suc.IH [OF this] Inr r True show ?thesis
        by (subst parse_lines.simps, subst parse_lines_bounded.simps) simp
    qed
  qed
qed

text \<open>
  C10. Each call of \<open>_parse_block\<close> that returns, returns an index strictly greater than
  the index it started from, or an index at or past the end of the list of lines. So the
  loop of \<open>parse_lines\<close> ends: the function \<^const>\<open>parse_lines\<close> is total (its termination
  is proved with the measure \<open>len(lines) - line_num\<close>), and the loop makes at most
  \<open>len(lines) - line_num\<close> calls of \<open>_parse_block\<close>, whether it ends by reaching the end
  of the lines or by an exception that leaves \<open>_parse_block\<close>.
\<close>

theorem parse_block_advances:
  "(parse_block env lines n src s = Inr (s', n') \<longrightarrow> n < n' \<or> length lines \<le> n')
   \<and> parse_lines_bounded (length lines - n) env lines n src s = Some (parse_lines env lines n src s)"
proof (intro conjI impI)
  assume a: "parse_block env lines n src s = Inr (s', n')"
  show "n < n' \<or> length lines \<le> n'"
  proof (cases "n < length lines")
    case True
    with a parse_block_progress show ?thesis by blast
  next
    case False
    with a have "n' = n" by (simp add: parse_block_at_end)
    with False show ?thesis by simp
  qed
next
  show "parse_lines_bounded (length lines - n) env lines n src s = Some (parse_lines env lines n src s)"
    by (rule parse_lines_bounded_enough) simp
qed

theorem parse_block_advances_witness:
  "parse_block no_files [''// Example: cube'', ''//   cube(10);'', '''', ''// Topics: Shapes''] 0 ''a.scad''
       (init_state False no_options) = Inr (init_state False no_options, 3)
   \<and> ((0::nat) < 3 \<or> length [''// Example: cube'', ''//   cube(10);'', '''', ''// Topics: Shapes''] \<le> 3)
   \<and> parse_lines_bounded 4 no_files [''// Example: cube'', ''//   cube(10);'', '''', ''// Topics: Shapes''] 0
        ''a.scad'' (init_state False no_options)
     = Some (parse_lines no_files [''// Example: cube'', ''//   cube(10);'', '''', ''// Topics: Shapes''] 0
        ''a.scad'' (init_state False no_options))"
proof -
  let ?L = "[''// Example: cube'', ''//   cube(10);'', '''', ''// Topics: Shapes'']"
  have a: "parse_block no_files ?L 0 ''a.scad'' (init_state False no_options)
      = Inr (init_state False no_options, 3)" by code_simp
  have l: "length ?L - 0 = 4" by simp
  note t = parse_block_advances [of no_files ?L 0 "''a.scad''" "init_state False no_options"
      "init_state False no_options" 3]
  from t a have b: "(0::nat) < 3 \<or> length ?L \<le> 3" by blast
  from t have "parse_lines_bounded (length ?L - 0) no_files ?L 0 ''a.scad'' (init_state False no_options)
     = Some (parse_lines no_files ?L 0 ''a.scad'' (init_state False no_options))" by (rule conjunct2)
  then have c: "parse_lines_bounded 4 no_files ?L 0 ''a.scad'' (init_state False no_options)
     = Some (parse_lines no_files ?L 0 ''a.scad'' (init_state False no_options))" unfolding l .
  from a b c show ?thesis by (intro conjI)
qed

text \<open>
  C1. A body line that starts with the comment prefix and two spaces but has less
  indentation than the first body line makes the body loop raise \<open>DocsGenException\<close>.
  The claim says the parse logs a FAIL entry for the block and goes on, and that the
  error never leaves the top-level parse call. The loop runs before the \<open>try\<close> statement
  of \<open>_parse_block\<close>, so nothing catches the exception: on the unit below \<open>parse_lines\<close>
  ends with the exception, no entry is logged, and the header \<open>Section: B\<close> that follows
  is never reached (no node is made).
\<close>

theorem under_indented_body_line_raises:
  "map_sum (\<lambda>(e, s). (e, errorlog s, nodes s)) (\<lambda>s. ())
     (parse_unit False [''// Section: A'', ''//   one'', ''//  two'', ''// Section: B''] ''a.scad'')
   = Inl (DocsGenException ''Section''
        ''Body line has less indentation than first line, while declaring block:'', [], [])"
  by code_simp

text \<open>
  C4. The claim says that an alias already present in the name index is rejected and
  the entry left as it was. \<open>_alias_block_cb\<close> assigns \<open>items_by_name[alias]\<close> without
  looking: below, \<open>foo()\<close> is declared by the item at node 2, and after the \<open>Alias\<close>
  block of \<open>bar()\<close> the name \<open>foo()\<close> leads to the node of \<open>bar()\<close>, with no error logged.
\<close>

theorem alias_overwrites_name_index:
  "(case parse_unit False [''// Function: foo()'', ''// Function: bar()'', ''// Alias: foo()''] ''a.scad'' of
      Inr s \<Rightarrow> node_subtitle (nodes s ! 2) = ''foo()'' \<and> node_class (nodes s ! 2) = ItemBlock
          \<and> node_subtitle (nodes s ! 3) = ''bar()'' \<and> node_class (nodes s ! 3) = ItemBlock
          \<and> map_of (items_by_name s) ''foo()'' = Some 3 \<and> errorlog s = []
    | Inl _ \<Rightarrow> False)"
  by code_simp

section \<open>The names of the index\<close>

text \<open>
  \<open>get_indexed_names\<close>: \<open>sorted(self.items_by_name.keys())\<close>, the names it yields as a
  list. \<open>sorted\<close> compares strings by their code points.
\<close>

definition get_indexed_names :: "parser_state \<Rightarrow> string list" where
  "get_indexed_names s = sort (map fst (items_by_name s))"

text \<open>The order of the claim: alphabetical without regard to case.\<close>

definition lower :: "string \<Rightarrow> string" where
  "lower s = map (\<lambda>c. if CHR ''A'' \<le> c \<and> c \<le> CHR ''Z'' then char_of (of_char c + (32::nat)) else c) s"

definition case_insensitive_sorted :: "string list \<Rightarrow> bool" where
  "case_insensitive_sorted names \<longleftrightarrow> sorted (map lower names)"

lemma get_indexed_names_sorted:
  "sorted (get_indexed_names s) \<and> set (get_indexed_names s) = fst ` set (items_by_name s)"
  by (simp add: get_indexed_names_def)

text \<open>
  C5. The claim says the names come in case-insensitive alphabetical order. The code
  sorts by code point, so every name that starts with a capital letter comes before
  every name that starts with a small one: \<open>Zed()\<close> before \<open>apple()\<close>.
\<close>

theorem get_indexed_names_case_sensitive:
  "(case parse_unit False [''// Function: apple()'', ''// Function: Zed()''] ''a.scad'' of
      Inr s \<Rightarrow> get_indexed_names s = [''Zed()'', ''apple()'']
          \<and> \<not> case_insensitive_sorted (get_indexed_names s)
    | Inl _ \<Rightarrow> False)"
  by code_simp

section \<open>One block at a time\<close>

lemma header_startswith_comment:
  assumes "header_pat_match line \<noteq> None"
  shows "startswith line ''//''"
proof -
  from assms have "startswith line ''// ''" by (auto simp: header_pat_match_def split: if_splits)
  then have "take 3 line = ''// ''" by (simp add: startswith_def numeral_3_eq_3)
  then have "take 2 (take 3 line) = ''//''" by simp
  then show ?thesis by (simp add: startswith_def min_def numeral_2_eq_2)
qed

lemma skip_lines_at_header:
  assumes "n < length lines" and "header_pat_match (lines ! n) \<noteq> None"
  shows "skip_lines lines n s = (s, n)"
  using assms header_startswith_comment [OF assms(2)]
  by (subst skip_lines.simps) (simp add: Let_def)

lemma close_item_no_item: "curr_item s = None \<Longrightarrow> close_item s = s"
  by (simp add: close_item_def)

lemma skip_lines_no_item:
  "curr_item s = None \<Longrightarrow> fst (skip_lines lines n s) = s"
proof (induction lines n s rule: skip_lines.induct)
  case (1 lines line_num s)
  show ?case
  proof (cases "line_num < length lines")
    case False
    with "1.prems" show ?thesis by (subst skip_lines.simps) (simp add: close_item_no_item)
  next
    case lt: True
    show ?thesis
    proof (cases "header_pat_match (lines ! line_num) \<noteq> None")
      case True
      with lt "1.prems" show ?thesis by (subst skip_lines.simps) (simp add: Let_def)
    next
      case False
      from "1.IH" [OF lt refl refl] False "1.prems"
      have "fst (skip_lines lines (line_num + 1) s) = s" by simp
      with lt False "1.prems" show ?thesis by (subst skip_lines.simps) (simp add: Let_def)
    qed
  qed
qed

text \<open>What closing an item and skipping lines leave untouched.\<close>

definition same_tree :: "parser_state \<Rightarrow> parser_state \<Rightarrow> bool" where
  "same_tree s s' \<longleftrightarrow> nodes s' = nodes s \<and> items_by_name s' = items_by_name s
     \<and> errorlog s' = errorlog s \<and> file_blocks s' = file_blocks s
     \<and> curr_file_block s' = curr_file_block s \<and> curr_section s' = curr_section s"

lemma same_tree_refl: "same_tree s s"
  by (simp add: same_tree_def)

lemma same_tree_trans: "same_tree s t \<Longrightarrow> same_tree t u \<Longrightarrow> same_tree s u"
  by (simp add: same_tree_def)

lemma close_item_same_tree: "same_tree s (close_item s)"
  by (simp add: same_tree_def close_item_def split: option.splits)

lemma skip_lines_same_tree: "same_tree s (fst (skip_lines lines n s))"
proof (induction lines n s rule: skip_lines.induct)
  case (1 lines line_num s)
  define s1 where "s1 = (if curr_item s \<noteq> None \<and> \<not> startswith (lines ! line_num) ''//''
                         then close_item s else s)"
  have s1: "same_tree s s1" by (simp add: s1_def close_item_same_tree same_tree_refl)
  show ?case
  proof (cases "line_num < length lines")
    case False
    then show ?thesis by (subst skip_lines.simps) (simp add: close_item_same_tree)
  next
    case lt: True
    show ?thesis
    proof (cases "header_pat_match (lines ! line_num) \<noteq> None")
      case True
      with lt s1 show ?thesis by (subst skip_lines.simps) (simp add: Let_def s1_def)
    next
      case False
      from "1.IH" [OF lt refl _ _] False
      have "same_tree s1 (fst (skip_lines lines (line_num + 1) s1))" by (simp add: s1_def)
      with s1 have "same_tree s (fst (skip_lines lines (line_num + 1) s1))" by (rule same_tree_trans)
      with lt False show ?thesis by (subst skip_lines.simps) (simp add: Let_def s1_def)
    qed
  qed
qed

text \<open>\<open>_parse_block\<close> called at the index of a header line.\<close>

lemma parse_block_at_header:
  assumes "n < length lines"
    and "header_match (lines ! n) = Some (title, meta, subtitle)"
    and "extract_body title lines (n + 1) = Inr (body, n2)"
  shows "parse_block env lines n src s =
     (case dispatch env title meta subtitle body \<lparr>origin_file = src, origin_line = n + 1\<rparr> s of
        (Some (DocsGenException b msg), s2) \<Rightarrow>
           Inr (add_entry \<lparr>origin_file = src, origin_line = n + 1\<rparr> b msg s2, n2)
      | (Some AttributeError, s2) \<Rightarrow> Inl (AttributeError, s2)
      | (None, s2) \<Rightarrow>
           Inr (skip_lines lines n2
                  (if n2 \<ge> length lines \<or> \<not> startswith (lines ! n2) ''//''
                   then close_item s2 else s2)))"
proof -
  from assms(2) obtain m where m: "header_pat_match (lines ! n) = Some m"
    and hf: "header_fields m = (title, meta, subtitle)"
    by (auto simp: header_match_def)
  from m have "header_pat_match (lines ! n) \<noteq> None" by simp
  from skip_lines_at_header [OF assms(1) this] have sk: "skip_lines lines n s = (s, n)" .
  from assms(3) have bl: "body_loop title lines (n + 1) True 2 [] = Inr (body, n2)"
    by (simp add: extract_body_def)
  obtain e s2 where d: "dispatch env title meta subtitle body \<lparr>origin_file = src, origin_line = n + 1\<rparr> s = (e, s2)"
    by (cases "dispatch env title meta subtitle body \<lparr>origin_file = src, origin_line = n + 1\<rparr> s")
  show ?thesis
  proof (cases e)
    case None
    with d show ?thesis unfolding parse_block_def sk using assms(1) m hf bl by (simp add: Let_def)
  next
    case (Some f)
    with d show ?thesis unfolding parse_block_def sk using assms(1) m hf bl
      by (cases f) (simp_all add: Let_def)
  qed
qed

lemma mk_block_eq:
  "mk_block cls title subtitle body origin parent meta hsets s =
     (s\<lparr>nodes := (case parent of
                    None \<Rightarrow> nodes s
                  | Some p \<Rightarrow> (nodes s)[p := (nodes s ! p)\<lparr>node_children :=
                                 node_children (nodes s ! p) @ [length (nodes s)]\<rparr>])
                 @ [blank_node cls title subtitle body origin parent meta hsets]\<rparr>,
      length (nodes s))"
  by (simp add: mk_block_def new_block_def Let_def)

lemma mkfilenode_new:
  assumes "curr_file_block s = None"
  shows "mkfilenode origin s =
     s\<lparr>nodes := nodes s @ [blank_node FileBlock ''LibFile'' (origin_file origin) [] origin None [] None],
       curr_file_block := Some (length (nodes s)), curr_parent := Some (length (nodes s)),
       file_blocks := file_blocks s @ [length (nodes s)]\<rparr>"
  using assms by (simp add: mkfilenode_def mk_block_eq)

lemma mkfilenode_old: "curr_file_block s \<noteq> None \<Longrightarrow> mkfilenode origin s = s"
  by (auto simp: mkfilenode_def)

section \<open>Claims about single blocks\<close>

lemma dispatch_dropped:
  assumes "title \<in> set [''Topics'', ''See Also'', ''Example'']"
    and "curr_item s = None"
    and "\<not> (curr_file_block s = None \<and> strict s)"
    and "title = ''Example'' \<or> \<not> has_key title (header_defs s)"
  shows "dispatch env title meta subtitle body origin s = (None, s)"
proof -
  from assms(3) have g: "(curr_file_block s = None \<and> strict s) = False" by simp
  from assms(1) consider "title = ''Topics''" | "title = ''See Also''" | "title = ''Example''" by auto
  then show ?thesis
  proof cases
    case 1
    with assms(2,4) show ?thesis by (simp add: dispatch_def Let_def g ok_def)
  next
    case 2
    with assms(2,4) show ?thesis by (simp add: dispatch_def Let_def g ok_def)
  next
    case 3
    with assms(2,4) show ?thesis by (simp add: dispatch_def Let_def g ok_def)
  qed
qed

lemma leaf_dropped_step:
  assumes "n < length lines"
    and "header_match (lines ! n) = Some (title, meta, subtitle)"
    and "extract_body title lines (n + 1) = Inr (body, n2)"
    and "title \<in> set [''Topics'', ''See Also'', ''Example'']"
    and "curr_item s = None"
    and "\<not> (curr_file_block s = None \<and> strict s)"
    and "title = ''Example'' \<or> \<not> has_key title (header_defs s)"
  shows "\<exists>n'. parse_block env lines n src s = Inr (s, n')"
proof -
  have d: "dispatch env title meta subtitle body \<lparr>origin_file = src, origin_line = n + 1\<rparr> s = (None, s)"
    using assms(4-7) by (rule dispatch_dropped)
  have c: "(if n2 \<ge> length lines \<or> \<not> startswith (lines ! n2) ''//'' then close_item s else s) = s"
    using assms(5) by (simp add: close_item_no_item)
  have "parse_block env lines n src s = Inr (skip_lines lines n2 s)"
    unfolding parse_block_at_header [OF assms(1-3)] d using c by simp
  moreover have "skip_lines lines n2 s = (s, snd (skip_lines lines n2 s))"
    using skip_lines_no_item [OF assms(5), of lines n2] by (simp add: prod_eq_iff)
  ultimately show ?thesis by metis
qed

lemma figure_step:
  assumes "n < length lines"
    and "header_match (lines ! n) = Some (''Figure'', meta, subtitle)"
    and "extract_body ''Figure'' lines (n + 1) = Inr (body, n2)"
    and "curr_item s = None"
    and "curr_file_block s \<noteq> None"
    and "curr_parent s = Some p"
  shows "\<exists>n'. parse_block env lines n src s =
     Inr (s\<lparr>nodes := (nodes s)[p := (nodes s ! p)\<lparr>node_children :=
                          node_children (nodes s ! p) @ [length (nodes s)]\<rparr>]
                    @ [blank_node FigureBlock ''Figure'' subtitle body
                         \<lparr>origin_file = src, origin_line = n + 1\<rparr> (Some p) meta None]\<rparr>, n')"
proof -
  define origin where "origin = \<lparr>origin_file = src, origin_line = n + 1\<rparr>"
  define s2 where "s2 = s\<lparr>nodes := (nodes s)[p := (nodes s ! p)\<lparr>node_children :=
                          node_children (nodes s ! p) @ [length (nodes s)]\<rparr>]
                    @ [blank_node FigureBlock ''Figure'' subtitle body origin (Some p) meta None]\<rparr>"
  from assms(5) have g: "(curr_file_block s = None \<and> strict s) = False" by simp
  have d: "dispatch env ''Figure'' meta subtitle body origin s = (None, s2)"
    using assms(6) by (simp add: dispatch_def Let_def g ok_def mkfilenode_old [OF assms(5)]
        mk_block_eq s2_def)
  have ci: "curr_item s2 = None" using assms(4) by (simp add: s2_def)
  then have c: "(if n2 \<ge> length lines \<or> \<not> startswith (lines ! n2) ''//'' then close_item s2 else s2) = s2"
    by (simp add: close_item_no_item)
  have "parse_block env lines n src s = Inr (skip_lines lines n2 s2)"
    unfolding parse_block_at_header [OF assms(1-3)] origin_def [symmetric] d using c by simp
  moreover have "skip_lines lines n2 s2 = (s2, snd (skip_lines lines n2 s2))"
    using skip_lines_no_item [OF ci, of lines n2] by (simp add: prod_eq_iff)
  ultimately have "parse_block env lines n src s = Inr (s2, snd (skip_lines lines n2 s2))" by simp
  then show ?thesis unfolding s2_def origin_def by blast
qed

text \<open>A unit that begins with a file header and a figure, and the parser after the file header.\<close>

definition figure_lines :: "string list" where
  "figure_lines = [''// LibFile: foo.scad'', ''// Figure: pic'', ''//   cube(10);'']"

definition figure_state :: parser_state where
  "figure_state = projr (parse_unit False (take 1 figure_lines) ''foo.scad'')"

text \<open>
  C3, as stated: a Topics, See Also, Example or Figure header met while no item is open
  creates no node and logs no error. The branch of \<open>Figure\<close> does not look at
  \<open>curr_item\<close>. In the unit below no item is ever open; the \<open>Figure\<close> header after the
  file header makes a figure node, a child of the file node.
\<close>

theorem figure_after_file_counterexample:
  "(case parse_unit False [''// LibFile: foo.scad'', ''// Figure: pic'', ''//   cube(10);''] ''foo.scad'' of
      Inr s \<Rightarrow> map node_class (nodes s) = [FileBlock, FigureBlock]
          \<and> node_title (nodes s ! 1) = ''Figure'' \<and> node_subtitle (nodes s ! 1) = ''pic''
          \<and> node_body (nodes s ! 1) = [''cube(10);'']
          \<and> node_parent (nodes s ! 1) = Some 0 \<and> node_children (nodes s ! 0) = [1]
          \<and> items_by_name s = [] \<and> errorlog s = []
    | Inl _ \<Rightarrow> False)"
  by code_simp

text \<open>
  C3, amended. Let \<open>_parse_block\<close> stand at a header while no item is open, the parser not
  being in strict mode without a file node (there every block is refused with a FAIL
  entry). At a Topics, See Also or Example header the block is dropped silently: the call
  returns with the parser state exactly as it was, so no node is made and nothing is
  logged (for Topics and See Also, provided \<open>DefineHeader\<close> has not given the title a
  rule of its own, which is looked up first). A Figure header is not dropped: where a file
  node exists, the block makes a figure node with the header's subtitle, body and
  metadata, a child of the current parent, and changes nothing else, so nothing is
  logged.
\<close>

theorem leaf_without_item:
  assumes "n < length lines"
    and "header_match (lines ! n) = Some (title, meta, subtitle)"
    and "extract_body title lines (n + 1) = Inr (body, n2)"
    and "curr_item s = None"
    and "\<not> (curr_file_block s = None \<and> strict s)"
  shows "(title \<in> set [''Topics'', ''See Also'', ''Example'']
          \<and> (title = ''Example'' \<or> \<not> has_key title (header_defs s)) \<longrightarrow>
            (\<exists>n'. parse_block env lines n src s = Inr (s, n')))
     \<and> (\<forall>p. title = ''Figure'' \<and> curr_file_block s \<noteq> None \<and> curr_parent s = Some p
              \<and> p < length (nodes s) \<longrightarrow>
            (\<exists>n'. parse_block env lines n src s =
               Inr (s\<lparr>nodes := (nodes s)[p := (nodes s ! p)\<lparr>node_children :=
                                    node_children (nodes s ! p) @ [length (nodes s)]\<rparr>]
                              @ [blank_node FigureBlock ''Figure'' subtitle body
                                   \<lparr>origin_file = src, origin_line = n + 1\<rparr> (Some p) meta None]\<rparr>, n')))"
proof (intro conjI allI impI)
  assume "title \<in> set [''Topics'', ''See Also'', ''Example'']
          \<and> (title = ''Example'' \<or> \<not> has_key title (header_defs s))"
  then show "\<exists>n'. parse_block env lines n src s = Inr (s, n')"
    using leaf_dropped_step [OF assms(1-3) _ assms(4,5)] by blast
next
  fix p
  assume a: "title = ''Figure'' \<and> curr_file_block s \<noteq> None \<and> curr_parent s = Some p
              \<and> p < length (nodes s)"
  with assms(2,3) have h2: "header_match (lines ! n) = Some (''Figure'', meta, subtitle)"
    and h3: "extract_body ''Figure'' lines (n + 1) = Inr (body, n2)" by simp_all
  from a have f: "curr_file_block s \<noteq> None" and cp: "curr_parent s = Some p" by simp_all
  from figure_step [OF assms(1) h2 h3 assms(4) f cp]
  show "\<exists>n'. parse_block env lines n src s =
               Inr (s\<lparr>nodes := (nodes s)[p := (nodes s ! p)\<lparr>node_children :=
                                    node_children (nodes s ! p) @ [length (nodes s)]\<rparr>]
                              @ [blank_node FigureBlock ''Figure'' subtitle body
                                   \<lparr>origin_file = src, origin_line = n + 1\<rparr> (Some p) meta None]\<rparr>, n')" .
qed

theorem leaf_without_item_witness:
  "(0::nat) < length [''// See Also: foo(), bar()'', ''x = 1;'']
   \<and> header_match ([''// See Also: foo(), bar()'', ''x = 1;''] ! 0) = Some (''See Also'', [], ''foo(), bar()'')
   \<and> extract_body ''See Also'' [''// See Also: foo(), bar()'', ''x = 1;''] (0 + 1) = Inr ([], 1)
   \<and> curr_item (init_state False no_options) = None
   \<and> \<not> (curr_file_block (init_state False no_options) = None \<and> strict (init_state False no_options))
   \<and> \<not> has_key ''See Also'' (header_defs (init_state False no_options))
   \<and> (\<exists>n'. parse_block no_files [''// See Also: foo(), bar()'', ''x = 1;''] 0 ''a.scad''
          (init_state False no_options) = Inr (init_state False no_options, n'))
   \<and> (1::nat) < length figure_lines
   \<and> header_match (figure_lines ! 1) = Some (''Figure'', [], ''pic'')
   \<and> extract_body ''Figure'' figure_lines (1 + 1) = Inr ([''cube(10);''], 3)
   \<and> curr_item figure_state = None
   \<and> \<not> (curr_file_block figure_state = None \<and> strict figure_state)
   \<and> curr_parent figure_state = Some 0 \<and> 0 < length (nodes figure_state)
   \<and> (\<exists>n'. parse_block no_files figure_lines 1 ''foo.scad'' figure_state =
          Inr (figure_state\<lparr>nodes := (nodes figure_state)[0 := (nodes figure_state ! 0)\<lparr>node_children :=
                                    node_children (nodes figure_state ! 0) @ [length (nodes figure_state)]\<rparr>]
                              @ [blank_node FigureBlock ''Figure'' ''pic'' [''cube(10);'']
                                   \<lparr>origin_file = ''foo.scad'', origin_line = 1 + 1\<rparr> (Some 0) [] None]\<rparr>, n'))
   \<and> (case parse_block no_files figure_lines 1 ''foo.scad'' figure_state of
         Inr (s', n') \<Rightarrow> map node_class (nodes s') = [FileBlock, FigureBlock]
             \<and> node_parent (nodes s' ! 1) = Some 0 \<and> node_children (nodes s' ! 0) = [1]
             \<and> errorlog s' = []
       | Inl _ \<Rightarrow> False)"
proof -
  let ?L = "[''// See Also: foo(), bar()'', ''x = 1;'']"
  let ?s = "init_state False no_options"
  have h1: "(0::nat) < length ?L" by simp
  have h2: "header_match (?L ! 0) = Some (''See Also'', [], ''foo(), bar()'')" by code_simp
  have h3: "extract_body ''See Also'' ?L (0 + 1) = Inr ([], 1)" by code_simp
  have h4: "''See Also'' \<in> set [''Topics'', ''See Also'', ''Example'']" by simp
  have h5: "curr_item ?s = None" by (simp add: init_state_def)
  have h6: "\<not> (curr_file_block ?s = None \<and> strict ?s)" by (simp add: init_state_def)
  have h7: "\<not> has_key ''See Also'' (header_defs ?s)" by (simp add: init_state_def has_key_def)
  from leaf_without_item [OF h1 h2 h3 h5 h6, of no_files "''a.scad''"] h4 h7
  have r1: "\<exists>n'. parse_block no_files ?L 0 ''a.scad'' ?s = Inr (?s, n')" by blast
  have g1: "(1::nat) < length figure_lines" by (simp add: figure_lines_def)
  have g2: "header_match (figure_lines ! 1) = Some (''Figure'', [], ''pic'')" by code_simp
  have g3: "extract_body ''Figure'' figure_lines (1 + 1) = Inr ([''cube(10);''], 3)" by code_simp
  have g4: "curr_item figure_state = None" by code_simp
  have g5: "\<not> (curr_file_block figure_state = None \<and> strict figure_state)" by code_simp
  have g6: "curr_file_block figure_state \<noteq> None" by code_simp
  have g7: "curr_parent figure_state = Some 0" by code_simp
  have g8: "0 < length (nodes figure_state)" by code_simp
  from leaf_without_item [OF g1 g2 g3 g4 g5, of no_files "''foo.scad''"] g6 g7 g8
  have r2: "\<exists>n'. parse_block no_files figure_lines 1 ''foo.scad'' figure_state =
          Inr (figure_state\<lparr>nodes := (nodes figure_state)[0 := (nodes figure_state ! 0)\<lparr>node_children :=
                                    node_children (nodes figure_state ! 0) @ [length (nodes figure_state)]\<rparr>]
                              @ [blank_node FigureBlock ''Figure'' ''pic'' [''cube(10);'']
                                   \<lparr>origin_file = ''foo.scad'', origin_line = 1 + 1\<rparr> (Some 0) [] None]\<rparr>, n')"
    by blast
  have r3: "(case parse_block no_files figure_lines 1 ''foo.scad'' figure_state of
         Inr (s', n') \<Rightarrow> map node_class (nodes s') = [FileBlock, FigureBlock]
             \<and> node_parent (nodes s' ! 1) = Some 0 \<and> node_children (nodes s' ! 0) = [1]
             \<and> errorlog s' = []
       | Inl _ \<Rightarrow> False)" by code_simp
  from h1 h2 h3 h5 h6 h7 r1 g1 g2 g3 g4 g5 g7 g8 r2 r3 show ?thesis by (intro conjI)
qed

lemma do_Section_orphan:
  assumes "curr_file_block s = None"
  shows "do_Section title subtitle body origin s =
     (None,
      s\<lparr>nodes := nodes s @
           [(blank_node FileBlock ''LibFile'' (origin_file origin) [] origin None [] None)
              \<lparr>node_children := [length (nodes s) + 1]\<rparr>,
            blank_node SectionBlock title subtitle body origin (Some (length (nodes s))) [] None],
        curr_file_block := Some (length (nodes s)),
        file_blocks := file_blocks s @ [length (nodes s)],
        curr_section := Some (length (nodes s) + 1), curr_subsection := None,
        curr_parent := Some (length (nodes s) + 1)\<rparr>)"
  unfolding do_Section_def mkfilenode_new [OF assms] Let_def mk_block_eq
  by (simp add: ok_def blank_node_def)

text \<open>
  C9, as stated: a Section header met while no file node exists gets a placeholder file
  node, with no error logged. In strict mode the guard before the \<open>Section\<close> branch
  refuses the block: a FAIL entry is logged, and neither a file node nor a section is
  made.
\<close>

theorem orphan_section_strict_counterexample:
  "(case parse_unit True [''// Section: A''] ''a.scad'' of
      Inr s \<Rightarrow> nodes s = [] \<and> curr_file_block s = None \<and> curr_section s = None \<and> curr_parent s = None
          \<and> map entry_message (errorlog s) = [''Must declare File or LibFile block before declaring block:'']
          \<and> map entry_level (errorlog s) = [FAIL]
    | Inl _ \<Rightarrow> False)"
  by code_simp

text \<open>
  C9, amended. When the parser is not in strict mode and no item is left open, a Section
  header met while no file node exists makes two nodes: a placeholder file node (class
  \<open>FileBlock\<close>, title \<open>LibFile\<close>, the source file as subtitle, no body) and the section,
  whose parent is the placeholder and which is the placeholder's only child. The
  placeholder becomes the current file node and is appended to the file nodes, the
  section becomes the current section and the current parent, nothing is logged, and
  the name index is unchanged.
\<close>

theorem orphan_section_gets_placeholder_file:
  assumes "n < length lines"
    and "header_match (lines ! n) = Some (''Section'', meta, subtitle)"
    and "extract_body ''Section'' lines (n + 1) = Inr (body, n2)"
    and "curr_file_block s = None" and "\<not> strict s" and "curr_item s = None"
  shows "\<exists>s' n'. parse_block env lines n src s = Inr (s', n')
      \<and> nodes s' = nodes s @
           [(blank_node FileBlock ''LibFile'' src [] \<lparr>origin_file = src, origin_line = n + 1\<rparr> None [] None)
              \<lparr>node_children := [length (nodes s) + 1]\<rparr>,
            blank_node SectionBlock ''Section'' subtitle body \<lparr>origin_file = src, origin_line = n + 1\<rparr>
              (Some (length (nodes s))) [] None]
      \<and> curr_file_block s' = Some (length (nodes s))
      \<and> file_blocks s' = file_blocks s @ [length (nodes s)]
      \<and> curr_section s' = Some (length (nodes s) + 1)
      \<and> curr_parent s' = Some (length (nodes s) + 1)
      \<and> errorlog s' = errorlog s \<and> items_by_name s' = items_by_name s"
proof -
  define origin where "origin = \<lparr>origin_file = src, origin_line = n + 1\<rparr>"
  define s2 where "s2 = s\<lparr>nodes := nodes s @
           [(blank_node FileBlock ''LibFile'' (origin_file origin) [] origin None [] None)
              \<lparr>node_children := [length (nodes s) + 1]\<rparr>,
            blank_node SectionBlock ''Section'' subtitle body origin (Some (length (nodes s))) [] None],
        curr_file_block := Some (length (nodes s)),
        file_blocks := file_blocks s @ [length (nodes s)],
        curr_section := Some (length (nodes s) + 1), curr_subsection := None,
        curr_parent := Some (length (nodes s) + 1)\<rparr>"
  have "dispatch env ''Section'' meta subtitle body origin s = do_Section ''Section'' subtitle body origin s"
    using assms(5) by (simp add: dispatch_def Let_def)
  then have d: "dispatch env ''Section'' meta subtitle body origin s = (None, s2)"
    by (simp add: do_Section_orphan [OF assms(4)] s2_def)
  have ci: "curr_item s2 = None" using assms(6) by (simp add: s2_def)
  then have c: "(if n2 \<ge> length lines \<or> \<not> startswith (lines ! n2) ''//'' then close_item s2 else s2) = s2"
    by (simp add: close_item_no_item)
  have "parse_block env lines n src s = Inr (skip_lines lines n2 s2)"
    unfolding parse_block_at_header [OF assms(1-3)] origin_def [symmetric] d using c by simp
  moreover have "skip_lines lines n2 s2 = (s2, snd (skip_lines lines n2 s2))"
    using skip_lines_no_item [OF ci, of lines n2] by (simp add: prod_eq_iff)
  ultimately have "parse_block env lines n src s = Inr (s2, snd (skip_lines lines n2 s2))" by simp
  moreover have "nodes s2 = nodes s @
           [(blank_node FileBlock ''LibFile'' src [] \<lparr>origin_file = src, origin_line = n + 1\<rparr> None [] None)
              \<lparr>node_children := [length (nodes s) + 1]\<rparr>,
            blank_node SectionBlock ''Section'' subtitle body \<lparr>origin_file = src, origin_line = n + 1\<rparr>
              (Some (length (nodes s))) [] None]"
    by (simp add: s2_def origin_def)
  moreover have "curr_file_block s2 = Some (length (nodes s))"
    "file_blocks s2 = file_blocks s @ [length (nodes s)]"
    "curr_section s2 = Some (length (nodes s) + 1)"
    "curr_parent s2 = Some (length (nodes s) + 1)"
    "errorlog s2 = errorlog s" "items_by_name s2 = items_by_name s"
    by (simp_all add: s2_def)
  ultimately show ?thesis by blast
qed

theorem orphan_section_gets_placeholder_file_witness:
  "(0::nat) < length [''// Section: A'', ''//   text'', ''x = 1;'']
   \<and> header_match ([''// Section: A'', ''//   text'', ''x = 1;''] ! 0) = Some (''Section'', [], ''A'')
   \<and> extract_body ''Section'' [''// Section: A'', ''//   text'', ''x = 1;''] (0 + 1) = Inr ([''text''], 2)
   \<and> curr_file_block (init_state False no_options) = None
   \<and> \<not> strict (init_state False no_options)
   \<and> curr_item (init_state False no_options) = None
   \<and> (\<exists>s' n'. parse_block no_files [''// Section: A'', ''//   text'', ''x = 1;''] 0 ''a.scad''
            (init_state False no_options) = Inr (s', n')
        \<and> nodes s' =
             [(blank_node FileBlock ''LibFile'' ''a.scad'' [] \<lparr>origin_file = ''a.scad'', origin_line = 1\<rparr>
                 None [] None)\<lparr>node_children := [1]\<rparr>,
              blank_node SectionBlock ''Section'' ''A'' [''text''] \<lparr>origin_file = ''a.scad'', origin_line = 1\<rparr>
                 (Some 0) [] None]
        \<and> curr_file_block s' = Some 0 \<and> file_blocks s' = [0]
        \<and> curr_section s' = Some 1 \<and> curr_parent s' = Some 1 \<and> errorlog s' = [])"
proof -
  let ?L = "[''// Section: A'', ''//   text'', ''x = 1;'']"
  let ?s = "init_state False no_options"
  have h1: "(0::nat) < length ?L" by simp
  have h2: "header_match (?L ! 0) = Some (''Section'', [], ''A'')" by code_simp
  have h3: "extract_body ''Section'' ?L (0 + 1) = Inr ([''text''], 2)" by code_simp
  have h4: "curr_file_block ?s = None" by (simp add: init_state_def)
  have h5: "\<not> strict ?s" by (simp add: init_state_def)
  have h6: "curr_item ?s = None" by (simp add: init_state_def)
  have n: "nodes ?s = []" "file_blocks ?s = []" "errorlog ?s = []" by (simp_all add: init_state_def)
  from orphan_section_gets_placeholder_file [OF h1 h2 h3 h4 h5 h6, of no_files "''a.scad''"]
  obtain s' n' where "parse_block no_files ?L 0 ''a.scad'' ?s = Inr (s', n')"
    and "nodes s' = nodes ?s @
           [(blank_node FileBlock ''LibFile'' ''a.scad'' [] \<lparr>origin_file = ''a.scad'', origin_line = 0 + 1\<rparr> None [] None)
              \<lparr>node_children := [length (nodes ?s) + 1]\<rparr>,
            blank_node SectionBlock ''Section'' ''A'' [''text''] \<lparr>origin_file = ''a.scad'', origin_line = 0 + 1\<rparr>
              (Some (length (nodes ?s))) [] None]"
    and "curr_file_block s' = Some (length (nodes ?s))"
    and "file_blocks s' = file_blocks ?s @ [length (nodes ?s)]"
    and "curr_section s' = Some (length (nodes ?s) + 1)"
    and "curr_parent s' = Some (length (nodes ?s) + 1)"
    and "errorlog s' = errorlog ?s"
    by blast
  then have "parse_block no_files ?L 0 ''a.scad'' ?s = Inr (s', n')
        \<and> nodes s' =
             [(blank_node FileBlock ''LibFile'' ''a.scad'' [] \<lparr>origin_file = ''a.scad'', origin_line = 1\<rparr>
                 None [] None)\<lparr>node_children := [1]\<rparr>,
              blank_node SectionBlock ''Section'' ''A'' [''text''] \<lparr>origin_file = ''a.scad'', origin_line = 1\<rparr>
                 (Some 0) [] None]
        \<and> curr_file_block s' = Some 0 \<and> file_blocks s' = [0]
        \<and> curr_section s' = Some 1 \<and> curr_parent s' = Some 1 \<and> errorlog s' = []"
    unfolding n by simp
  then have "\<exists>s' n'. parse_block no_files ?L 0 ''a.scad'' ?s = Inr (s', n')
        \<and> nodes s' =
             [(blank_node FileBlock ''LibFile'' ''a.scad'' [] \<lparr>origin_file = ''a.scad'', origin_line = 1\<rparr>
                 None [] None)\<lparr>node_children := [1]\<rparr>,
              blank_node SectionBlock ''Section'' ''A'' [''text''] \<lparr>origin_file = ''a.scad'', origin_line = 1\<rparr>
                 (Some 0) [] None]
        \<and> curr_file_block s' = Some 0 \<and> file_blocks s' = [0]
        \<and> curr_section s' = Some 1 \<and> curr_parent s' = Some 1 \<and> errorlog s' = []"
    by blast
  with h1 h2 h3 h4 h5 h6 show ?thesis by (intro conjI)
qed

subsection \<open>Item headers\<close>

text \<open>The item nodes of the tree, in the order they were made: title, subtitle, body, origin.\<close>

definition items_of :: "node list \<Rightarrow> (string \<times> string \<times> string list \<times> origin_info) list" where
  "items_of ns = map (\<lambda>n. (node_title n, node_subtitle n, node_body n, node_origin n))
                   (filter (\<lambda>n. node_class n = ItemBlock) ns)"

definition item_nodes :: "parser_state \<Rightarrow> (string \<times> string \<times> string list \<times> origin_info) list" where
  "item_nodes s = items_of (nodes s)"

text \<open>A step that adds no item, keeps index and log, and keeps the origin of every node.\<close>

definition grows :: "parser_state \<Rightarrow> parser_state \<Rightarrow> bool" where
  "grows s s' \<longleftrightarrow> items_by_name s' = items_by_name s \<and> errorlog s' = errorlog s
     \<and> item_nodes s' = item_nodes s \<and> length (nodes s) \<le> length (nodes s')
     \<and> (\<forall>i<length (nodes s). node_origin (nodes s' ! i) = node_origin (nodes s ! i))"

lemma grows_refl: "grows s s"
  by (simp add: grows_def)

lemma grows_trans: "grows s t \<Longrightarrow> grows t u \<Longrightarrow> grows s u"
  by (auto simp: grows_def)

lemma items_of_children_update:
  "items_of (ns[p := (ns ! p)\<lparr>node_children := c\<rparr>]) = items_of ns"
proof (induction ns arbitrary: p)
  case Nil
  then show ?case by simp
next
  case (Cons a ns)
  then show ?case by (cases p) (simp_all add: items_of_def)
qed

lemma origin_children_update:
  "node_origin (ns[p := (ns ! p)\<lparr>node_children := c\<rparr>] ! i) = node_origin (ns ! i)"
proof (cases "p < length ns")
  case True
  then show ?thesis by (cases "i = p") simp_all
next
  case False
  then show ?thesis by (simp add: list_update_beyond)
qed

lemma items_of_snoc:
  "items_of (ns @ [blank_node cls title subtitle body origin parent meta hsets]) =
     items_of ns @ (if cls = ItemBlock then [(title, subtitle, body, origin)] else [])"
  by (simp add: items_of_def blank_node_def)

lemma mk_block_grows:
  assumes "cls \<noteq> ItemBlock"
  shows "grows s (fst (mk_block cls title subtitle body origin parent meta hsets s))"
proof (cases parent)
  case None
  with assms show ?thesis
    by (simp add: mk_block_eq grows_def item_nodes_def items_of_snoc nth_append)
next
  case (Some p)
  with assms show ?thesis
    by (simp add: mk_block_eq grows_def item_nodes_def items_of_snoc items_of_children_update
        nth_append origin_children_update)
qed

lemma mkfilenode_grows: "grows s (mkfilenode origin s)"
proof (cases "curr_file_block s = None")
  case True
  then show ?thesis
    by (simp add: mkfilenode_new grows_def item_nodes_def items_of_snoc nth_append)
next
  case False
  then show ?thesis by (simp add: mkfilenode_old grows_refl)
qed

lemma item_context_grows: "grows s (item_context origin s)"
proof -
  define s1 where "s1 = mkfilenode origin s"
  define s2 where "s2 = (if curr_section s1 = None then
                  (case mk_block SectionBlock ''Section'' [] [] origin (curr_file_block s1) [] None s1 of
                     (t, sid) \<Rightarrow> t\<lparr>curr_section := Some sid\<rparr>)
                else s1)"
  have g1: "grows s s1" by (simp add: s1_def mkfilenode_grows)
  have "grows s1 (fst (mk_block SectionBlock ''Section'' [] [] origin (curr_file_block s1) [] None s1))"
    by (rule mk_block_grows) simp
  then have g2: "grows s1 s2"
    by (simp add: s2_def grows_refl) (simp add: grows_def item_nodes_def mk_block_eq)
  have "grows s2 (s2\<lparr>curr_parent := curr_section s2\<rparr>)" by (simp add: grows_def item_nodes_def)
  with g1 g2 have "grows s (s2\<lparr>curr_parent := curr_section s2\<rparr>)" by (blast intro: grows_trans)
  then show ?thesis
    unfolding item_context_def Let_def s1_def [symmetric] s2_def [symmetric] .
qed

lemma dispatch_item:
  assumes "title \<in> set [''Constant'', ''Function'', ''Module'', ''Function&Module'']"
    and "\<not> has_key title (header_defs s)"
    and "\<not> (curr_file_block s = None \<and> strict s)"
  shows "dispatch env title meta subtitle body origin s = do_Item title subtitle body origin s"
proof -
  from assms(3) have g: "(curr_file_block s = None \<and> strict s) = False" by simp
  from assms(1) consider "title = ''Constant''" | "title = ''Function''" | "title = ''Module''"
    | "title = ''Function&Module''" by auto
  then show ?thesis
  proof cases
    case 1
    with assms(2) show ?thesis by (simp add: dispatch_def Let_def g)
  next
    case 2
    with assms(2) show ?thesis by (simp add: dispatch_def Let_def g)
  next
    case 3
    with assms(2) show ?thesis by (simp add: dispatch_def Let_def g)
  next
    case 4
    with assms(2) show ?thesis by (simp add: dispatch_def Let_def g)
  qed
qed

text \<open>
  C2, as stated: in every unit with two Constant, Function, Module or Function&Module
  headers of the same subtitle, parsing leaves exactly one item for the subtitle in the
  tree and the name index, and exactly one FAIL entry that names the origin of the first
  declaration. In strict mode, in a unit without File header, the guard before the
  branch refuses both headers: no item is made, the index stays empty, and both FAIL
  entries say that a File block must be declared first.
\<close>

theorem duplicate_item_strict_counterexample:
  "(case parse_unit True [''// Function: foo()'', ''// Function: foo()''] ''a.scad'' of
      Inr s \<Rightarrow> item_nodes s = [] \<and> items_by_name s = []
          \<and> map entry_message (errorlog s) =
              [''Must declare File or LibFile block before declaring block:'',
               ''Must declare File or LibFile block before declaring block:'']
    | Inl _ \<Rightarrow> False)"
  by code_simp

lemma item_context_section:
  assumes "case curr_section s of None \<Rightarrow> True | Some sec \<Rightarrow> sec < length (nodes s)"
  shows "\<exists>sec. curr_section (item_context origin s) = Some sec
      \<and> curr_parent (item_context origin s) = Some sec
      \<and> sec < length (nodes (item_context origin s))
      \<and> node_children (nodes (item_context origin s) ! sec)
          = (case curr_section s of None \<Rightarrow> [] | Some _ \<Rightarrow> node_children (nodes s ! sec))"
proof (cases "curr_file_block s")
  case None
  note f = mkfilenode_new [OF None, of origin]
  show ?thesis
  proof (cases "curr_section s")
    case n: None
    then show ?thesis
      by (simp add: item_context_def Let_def f mk_block_eq nth_append blank_node_def)
  next
    case (Some sec)
    with assms show ?thesis
      by (simp add: item_context_def Let_def f nth_append)
  qed
next
  case (Some fid)
  then have "curr_file_block s \<noteq> None" by simp
  note f = mkfilenode_old [OF this, of origin]
  show ?thesis
  proof (cases "curr_section s")
    case None
    then show ?thesis
      by (simp add: item_context_def Let_def f Some mk_block_eq nth_append blank_node_def)
  next
    case s: (Some sec)
    with assms show ?thesis
      by (simp add: item_context_def Let_def f)
  qed
qed

lemma item_rejected_step:
  assumes "n < length lines"
    and "header_match (lines ! n) = Some (title, meta, subtitle)"
    and "extract_body title lines (n + 1) = Inr (body, n2)"
    and "title \<in> set [''Constant'', ''Function'', ''Module'', ''Function&Module'']"
    and "\<not> has_key title (header_defs s)"
    and "\<not> (curr_file_block s = None \<and> strict s)"
    and "map_of (items_by_name s) subtitle = Some prev" and "prev < length (nodes s)"
  shows "\<exists>s'. parse_block env lines n src s = Inr (s', n2)
               \<and> items_by_name s' = items_by_name s \<and> item_nodes s' = item_nodes s
               \<and> errorlog s' = errorlog s @
                   [\<lparr>entry_file = src, entry_line = n + 1, entry_block = title,
                     entry_message = ''Previous declaration of '' @ [CHR 0x60] @ subtitle @ [CHR 0x60]
                        @ '' at '' @ origin_file (node_origin (nodes s ! prev)) @ '':''
                        @ str_of_nat (origin_line (node_origin (nodes s ! prev))) @ '', Redeclared:'',
                     entry_level = FAIL\<rparr>]"
proof -
  define origin where "origin = \<lparr>origin_file = src, origin_line = n + 1\<rparr>"
  define s3 where "s3 = item_context origin s"
  have g: "grows s s3" by (simp add: s3_def item_context_grows)
  have d: "dispatch env title meta subtitle body origin s = do_Item title subtitle body origin s"
    using assms(4-6) by (rule dispatch_item)
  from assms(7,8) g have m: "map_of (items_by_name s3) subtitle = Some prev"
    and o: "node_origin (nodes s3 ! prev) = node_origin (nodes s ! prev)"
    by (simp_all add: grows_def)
  define msg where "msg = ''Previous declaration of '' @ [CHR 0x60] @ subtitle @ [CHR 0x60]
                      @ '' at '' @ origin_file (node_origin (nodes s ! prev)) @ '':''
                      @ str_of_nat (origin_line (node_origin (nodes s ! prev))) @ '', Redeclared:''"
  have "do_Item title subtitle body origin s = (Some (DocsGenException title msg), s3)"
    unfolding do_Item_def s3_def [symmetric] Let_def m
    by (simp add: raise_def redeclared_def o msg_def)
  with d have "parse_block env lines n src s = Inr (add_entry origin title msg s3, n2)"
    unfolding parse_block_at_header [OF assms(1-3)] origin_def [symmetric] by simp
  moreover have "items_by_name (add_entry origin title msg s3) = items_by_name s"
    "item_nodes (add_entry origin title msg s3) = item_nodes s"
    using g by (simp_all add: add_entry_def grows_def item_nodes_def)
  moreover have "errorlog (add_entry origin title msg s3) = errorlog s @
                 [\<lparr>entry_file = src, entry_line = n + 1, entry_block = title,
                   entry_message = msg, entry_level = FAIL\<rparr>]"
    using g by (simp add: add_entry_def grows_def origin_def)
  ultimately show ?thesis unfolding msg_def by blast
qed

lemma item_registered_step:
  assumes "n < length lines"
    and "header_match (lines ! n) = Some (title, meta, subtitle)"
    and "extract_body title lines (n + 1) = Inr (body, n2)"
    and "title \<in> set [''Constant'', ''Function'', ''Module'', ''Function&Module'']"
    and "\<not> has_key title (header_defs s)"
    and "\<not> (curr_file_block s = None \<and> strict s)"
    and "case curr_section s of None \<Rightarrow> True | Some sec \<Rightarrow> sec < length (nodes s)"
    and "map_of (items_by_name s) subtitle = None"
  shows "\<exists>s' n' sec. parse_block env lines n src s = Inr (s', n')
       \<and> items_by_name s' = AList.update subtitle (length (nodes s') - 1) (items_by_name s)
       \<and> item_nodes s' = item_nodes s @ [(title, subtitle, body, \<lparr>origin_file = src, origin_line = n + 1\<rparr>)]
       \<and> errorlog s' = errorlog s
       \<and> curr_section s' = Some sec \<and> sec < length (nodes s') - 1
       \<and> nodes s' ! (length (nodes s') - 1)
           = blank_node ItemBlock title subtitle body \<lparr>origin_file = src, origin_line = n + 1\<rparr> (Some sec) [] None
       \<and> node_children (nodes s' ! sec)
           = (case curr_section s of None \<Rightarrow> [] | Some _ \<Rightarrow> node_children (nodes s ! sec))
             @ [length (nodes s') - 1]"
proof -
  define origin where "origin = \<lparr>origin_file = src, origin_line = n + 1\<rparr>"
  define s3 where "s3 = item_context origin s"
  have g: "grows s s3" by (simp add: s3_def item_context_grows)
  have d: "dispatch env title meta subtitle body origin s = do_Item title subtitle body origin s"
    using assms(4-6) by (rule dispatch_item)
  from item_context_section [OF assms(7), of origin] obtain sec where
    cs: "curr_section s3 = Some sec" and cp: "curr_parent s3 = Some sec"
    and sl: "sec < length (nodes s3)"
    and ch: "node_children (nodes s3 ! sec)
          = (case curr_section s of None \<Rightarrow> [] | Some _ \<Rightarrow> node_children (nodes s ! sec))"
    unfolding s3_def by blast
  from assms(8) g have m: "map_of (items_by_name s3) subtitle = None" by (simp add: grows_def)
  define item where "item = length (nodes s3)"
  define s4 where "s4 = fst (mk_block ItemBlock title subtitle body origin (curr_parent s3) [] None s3)"
  define s5 where "s5 = s4\<lparr>items_by_name := AList.update subtitle item (items_by_name s4),
                    curr_item := Some item, curr_parent := Some item\<rparr>"
  have mk: "mk_block ItemBlock title subtitle body origin (curr_parent s3) [] None s3 = (s4, item)"
    by (simp add: s4_def item_def mk_block_eq)
  have di: "do_Item title subtitle body origin s = (None, s5)"
    unfolding do_Item_def s3_def [symmetric] Let_def m using mk by (simp add: ok_def s5_def)
  define s6 where "s6 = (if n2 \<ge> length lines \<or> \<not> startswith (lines ! n2) ''//''
                         then close_item s5 else s5)"
  define s' where "s' = fst (skip_lines lines n2 s6)"
  have pb: "parse_block env lines n src s = Inr (s', snd (skip_lines lines n2 s6))"
    unfolding parse_block_at_header [OF assms(1-3)] origin_def [symmetric] d di
    by (simp add: s6_def s'_def)
  have "same_tree s5 s6" by (simp add: s6_def close_item_same_tree same_tree_refl)
  moreover have "same_tree s6 s'" unfolding s'_def by (rule skip_lines_same_tree)
  ultimately have st: "same_tree s5 s'" by (rule same_tree_trans)
  have n4: "nodes s4 = (nodes s3)[sec := (nodes s3 ! sec)\<lparr>node_children :=
                                 node_children (nodes s3 ! sec) @ [item]\<rparr>]
                 @ [blank_node ItemBlock title subtitle body origin (Some sec) [] None]"
    by (simp add: s4_def mk_block_eq cp item_def)
  have len: "length (nodes s4) - 1 = item" by (simp add: n4 item_def)
  have i4: "items_of (nodes s4) = items_of (nodes s3) @ [(title, subtitle, body, origin)]"
    unfolding n4 by (simp add: items_of_snoc items_of_children_update)
  have ns': "nodes s' = nodes s4" using st by (simp add: same_tree_def s5_def)
  have ib4: "items_by_name s4 = items_by_name s" "errorlog s4 = errorlog s"
    "curr_section s4 = curr_section s3"
    using g by (simp_all add: s4_def mk_block_eq grows_def)
  have "items_by_name s' = AList.update subtitle item (items_by_name s)"
    using st ib4 by (simp add: same_tree_def s5_def)
  then have r1: "items_by_name s' = AList.update subtitle (length (nodes s') - 1) (items_by_name s)"
    unfolding ns' len .
  have r2: "item_nodes s' = item_nodes s @ [(title, subtitle, body, \<lparr>origin_file = src, origin_line = n + 1\<rparr>)]"
    using g by (simp add: item_nodes_def ns' i4 grows_def origin_def)
  have r3: "errorlog s' = errorlog s" using st ib4 by (simp add: same_tree_def s5_def)
  have r4: "curr_section s' = Some sec" using st ib4 cs by (simp add: same_tree_def s5_def)
  have r5: "sec < length (nodes s') - 1" unfolding ns' len item_def by (rule sl)
  have "nodes s4 ! item = blank_node ItemBlock title subtitle body origin (Some sec) [] None"
    unfolding n4 item_def by (simp add: nth_append)
  then have r6: "nodes s' ! (length (nodes s') - 1)
      = blank_node ItemBlock title subtitle body \<lparr>origin_file = src, origin_line = n + 1\<rparr> (Some sec) [] None"
    unfolding ns' len origin_def .
  have "node_children (nodes s4 ! sec) = node_children (nodes s3 ! sec) @ [item]"
    unfolding n4 using sl by (simp add: nth_append)
  then have r7: "node_children (nodes s' ! sec)
      = (case curr_section s of None \<Rightarrow> [] | Some _ \<Rightarrow> node_children (nodes s ! sec))
        @ [length (nodes s') - 1]"
    unfolding ns' len ch .
  from pb r1 r2 r3 r4 r5 r6 r7 show ?thesis by blast
qed

text \<open>
  C2, amended. Take a Constant, Function, Module or Function&Module header that reaches
  its branch (the parser is not in strict mode without a file node, and the title has
  no rule of its own in the registry). If the subtitle is not in the name index, the
  block makes exactly one item node, with the header's title, subtitle, body and origin,
  as the last child of the current section (a section made for it when none is open),
  enters it in the name index under the subtitle, and logs nothing. If the subtitle is
  in the name index, the block makes no item node, leaves the name index as it is (the
  entry is not overwritten), and logs exactly one FAIL entry at the header's own file
  and line, whose message names the subtitle and the file and line of the origin of the
  node that the index holds for it.
\<close>

theorem item_header_registers_or_rejects:
  assumes "n < length lines"
    and "header_match (lines ! n) = Some (title, meta, subtitle)"
    and "extract_body title lines (n + 1) = Inr (body, n2)"
    and "title \<in> set [''Constant'', ''Function'', ''Module'', ''Function&Module'']"
    and "\<not> has_key title (header_defs s)"
    and "\<not> (curr_file_block s = None \<and> strict s)"
    and "case curr_section s of None \<Rightarrow> True | Some sec \<Rightarrow> sec < length (nodes s)"
  shows "(\<forall>prev. map_of (items_by_name s) subtitle = Some prev \<and> prev < length (nodes s) \<longrightarrow>
            (\<exists>s'. parse_block env lines n src s = Inr (s', n2)
               \<and> items_by_name s' = items_by_name s \<and> item_nodes s' = item_nodes s
               \<and> errorlog s' = errorlog s @
                   [\<lparr>entry_file = src, entry_line = n + 1, entry_block = title,
                     entry_message = ''Previous declaration of '' @ [CHR 0x60] @ subtitle @ [CHR 0x60]
                        @ '' at '' @ origin_file (node_origin (nodes s ! prev)) @ '':''
                        @ str_of_nat (origin_line (node_origin (nodes s ! prev))) @ '', Redeclared:'',
                     entry_level = FAIL\<rparr>]))
     \<and> (map_of (items_by_name s) subtitle = None \<longrightarrow>
            (\<exists>s' n' sec. parse_block env lines n src s = Inr (s', n')
               \<and> items_by_name s' = AList.update subtitle (length (nodes s') - 1) (items_by_name s)
               \<and> item_nodes s' = item_nodes s @ [(title, subtitle, body, \<lparr>origin_file = src, origin_line = n + 1\<rparr>)]
               \<and> errorlog s' = errorlog s
               \<and> curr_section s' = Some sec \<and> sec < length (nodes s') - 1
               \<and> nodes s' ! (length (nodes s') - 1)
                   = blank_node ItemBlock title subtitle body \<lparr>origin_file = src, origin_line = n + 1\<rparr>
                       (Some sec) [] None
               \<and> node_children (nodes s' ! sec)
                   = (case curr_section s of None \<Rightarrow> [] | Some _ \<Rightarrow> node_children (nodes s ! sec))
                     @ [length (nodes s') - 1]))"
proof (intro conjI allI impI)
  fix prev
  assume "map_of (items_by_name s) subtitle = Some prev \<and> prev < length (nodes s)"
  then have a: "map_of (items_by_name s) subtitle = Some prev" and b: "prev < length (nodes s)"
    by simp_all
  from item_rejected_step [OF assms(1-6) a b]
  show "\<exists>s'. parse_block env lines n src s = Inr (s', n2)
               \<and> items_by_name s' = items_by_name s \<and> item_nodes s' = item_nodes s
               \<and> errorlog s' = errorlog s @
                   [\<lparr>entry_file = src, entry_line = n + 1, entry_block = title,
                     entry_message = ''Previous declaration of '' @ [CHR 0x60] @ subtitle @ [CHR 0x60]
                        @ '' at '' @ origin_file (node_origin (nodes s ! prev)) @ '':''
                        @ str_of_nat (origin_line (node_origin (nodes s ! prev))) @ '', Redeclared:'',
                     entry_level = FAIL\<rparr>]" .
next
  assume a: "map_of (items_by_name s) subtitle = None"
  from item_registered_step [OF assms(1-7) a]
  show "\<exists>s' n' sec. parse_block env lines n src s = Inr (s', n')
               \<and> items_by_name s' = AList.update subtitle (length (nodes s') - 1) (items_by_name s)
               \<and> item_nodes s' = item_nodes s @ [(title, subtitle, body, \<lparr>origin_file = src, origin_line = n + 1\<rparr>)]
               \<and> errorlog s' = errorlog s
               \<and> curr_section s' = Some sec \<and> sec < length (nodes s') - 1
               \<and> nodes s' ! (length (nodes s') - 1)
                   = blank_node ItemBlock title subtitle body \<lparr>origin_file = src, origin_line = n + 1\<rparr>
                       (Some sec) [] None
               \<and> node_children (nodes s' ! sec)
                   = (case curr_section s of None \<Rightarrow> [] | Some _ \<Rightarrow> node_children (nodes s ! sec))
                     @ [length (nodes s') - 1]" .
qed


text \<open>A unit that declares \<open>bar()\<close> twice, and the parser after the first \<open>k\<close> lines of it.\<close>

definition duplicate_lines :: "string list" where
  "duplicate_lines = [''// LibFile: foo.scad'', ''// Function: bar()'', ''x = 1;'', ''// Function: bar()'']"

definition state_after :: "nat \<Rightarrow> parser_state" where
  "state_after k = projr (parse_unit False (take k duplicate_lines) ''foo.scad'')"

theorem item_header_registers_or_rejects_witness:
  "(1::nat) < length duplicate_lines
   \<and> header_match (duplicate_lines ! 1) = Some (''Function'', [], ''bar()'')
   \<and> extract_body ''Function'' duplicate_lines (1 + 1) = Inr ([], 2)
   \<and> \<not> has_key ''Function'' (header_defs (state_after 1))
   \<and> \<not> (curr_file_block (state_after 1) = None \<and> strict (state_after 1))
   \<and> curr_section (state_after 1) = None
   \<and> map_of (items_by_name (state_after 1)) ''bar()'' = None
   \<and> (\<exists>s' n' sec. parse_block no_files duplicate_lines 1 ''foo.scad'' (state_after 1) = Inr (s', n')
         \<and> items_by_name s' = AList.update ''bar()'' (length (nodes s') - 1) (items_by_name (state_after 1))
         \<and> item_nodes s' = item_nodes (state_after 1)
              @ [(''Function'', ''bar()'', [], \<lparr>origin_file = ''foo.scad'', origin_line = 1 + 1\<rparr>)]
         \<and> errorlog s' = errorlog (state_after 1)
         \<and> curr_section s' = Some sec \<and> sec < length (nodes s') - 1
         \<and> nodes s' ! (length (nodes s') - 1)
              = blank_node ItemBlock ''Function'' ''bar()'' [] \<lparr>origin_file = ''foo.scad'', origin_line = 1 + 1\<rparr>
                  (Some sec) [] None
         \<and> node_children (nodes s' ! sec) = [] @ [length (nodes s') - 1])
   \<and> (3::nat) < length duplicate_lines
   \<and> header_match (duplicate_lines ! 3) = Some (''Function'', [], ''bar()'')
   \<and> extract_body ''Function'' duplicate_lines (3 + 1) = Inr ([], 4)
   \<and> \<not> has_key ''Function'' (header_defs (state_after 3))
   \<and> \<not> (curr_file_block (state_after 3) = None \<and> strict (state_after 3))
   \<and> curr_section (state_after 3) = Some 1 \<and> 1 < length (nodes (state_after 3))
   \<and> map_of (items_by_name (state_after 3)) ''bar()'' = Some 2
   \<and> 2 < length (nodes (state_after 3))
   \<and> node_origin (nodes (state_after 3) ! 2) = \<lparr>origin_file = ''foo.scad'', origin_line = 2\<rparr>
   \<and> (\<exists>s'. parse_block no_files duplicate_lines 3 ''foo.scad'' (state_after 3) = Inr (s', 4)
         \<and> items_by_name s' = items_by_name (state_after 3)
         \<and> item_nodes s' = item_nodes (state_after 3)
         \<and> errorlog s' = errorlog (state_after 3) @
              [\<lparr>entry_file = ''foo.scad'', entry_line = 4, entry_block = ''Function'',
                entry_message = ''Previous declaration of '' @ [CHR 0x60] @ ''bar()'' @ [CHR 0x60]
                   @ '' at foo.scad:2, Redeclared:'',
                entry_level = FAIL\<rparr>])
   \<and> (case parse_unit False duplicate_lines ''foo.scad'' of
         Inr s \<Rightarrow> map node_class (nodes s) = [FileBlock, SectionBlock, ItemBlock]
             \<and> item_nodes s = [(''Function'', ''bar()'', [], \<lparr>origin_file = ''foo.scad'', origin_line = 2\<rparr>)]
             \<and> node_parent (nodes s ! 2) = Some 1 \<and> node_children (nodes s ! 1) = [2]
             \<and> node_parent (nodes s ! 1) = Some 0 \<and> node_children (nodes s ! 0) = [1]
             \<and> items_by_name s = [(''bar()'', 2)]
             \<and> map entry_line (errorlog s) = [4] \<and> map entry_level (errorlog s) = [FAIL]
       | Inl _ \<Rightarrow> False)"
proof -
  have t: "''Function'' \<in> set [''Constant'', ''Function'', ''Module'', ''Function&Module'']" by simp
  have a1: "(1::nat) < length duplicate_lines" by (simp add: duplicate_lines_def)
  have a2: "header_match (duplicate_lines ! 1) = Some (''Function'', [], ''bar()'')" by code_simp
  have a3: "extract_body ''Function'' duplicate_lines (1 + 1) = Inr ([], 2)" by code_simp
  have a4: "\<not> has_key ''Function'' (header_defs (state_after 1))" by code_simp
  have a5: "\<not> (curr_file_block (state_after 1) = None \<and> strict (state_after 1))" by code_simp
  have a6: "curr_section (state_after 1) = None" by code_simp
  then have a6': "case curr_section (state_after 1) of None \<Rightarrow> True
      | Some sec \<Rightarrow> sec < length (nodes (state_after 1))" by simp
  have a7: "map_of (items_by_name (state_after 1)) ''bar()'' = None" by code_simp
  from item_header_registers_or_rejects [OF a1 a2 a3 t a4 a5 a6', of no_files "''foo.scad''"] a7
  have "\<exists>s' n' sec. parse_block no_files duplicate_lines 1 ''foo.scad'' (state_after 1) = Inr (s', n')
         \<and> items_by_name s' = AList.update ''bar()'' (length (nodes s') - 1) (items_by_name (state_after 1))
         \<and> item_nodes s' = item_nodes (state_after 1)
              @ [(''Function'', ''bar()'', [], \<lparr>origin_file = ''foo.scad'', origin_line = 1 + 1\<rparr>)]
         \<and> errorlog s' = errorlog (state_after 1)
         \<and> curr_section s' = Some sec \<and> sec < length (nodes s') - 1
         \<and> nodes s' ! (length (nodes s') - 1)
              = blank_node ItemBlock ''Function'' ''bar()'' [] \<lparr>origin_file = ''foo.scad'', origin_line = 1 + 1\<rparr>
                  (Some sec) [] None
         \<and> node_children (nodes s' ! sec)
              = (case curr_section (state_after 1) of None \<Rightarrow> []
                 | Some _ \<Rightarrow> node_children (nodes (state_after 1) ! sec)) @ [length (nodes s') - 1]"
    by blast
  then have r1: "\<exists>s' n' sec. parse_block no_files duplicate_lines 1 ''foo.scad'' (state_after 1) = Inr (s', n')
         \<and> items_by_name s' = AList.update ''bar()'' (length (nodes s') - 1) (items_by_name (state_after 1))
         \<and> item_nodes s' = item_nodes (state_after 1)
              @ [(''Function'', ''bar()'', [], \<lparr>origin_file = ''foo.scad'', origin_line = 1 + 1\<rparr>)]
         \<and> errorlog s' = errorlog (state_after 1)
         \<and> curr_section s' = Some sec \<and> sec < length (nodes s') - 1
         \<and> nodes s' ! (length (nodes s') - 1)
              = blank_node ItemBlock ''Function'' ''bar()'' [] \<lparr>origin_file = ''foo.scad'', origin_line = 1 + 1\<rparr>
                  (Some sec) [] None
         \<and> node_children (nodes s' ! sec) = [] @ [length (nodes s') - 1]"
    unfolding a6 option.case .
  have b1: "(3::nat) < length duplicate_lines" by (simp add: duplicate_lines_def)
  have b2: "header_match (duplicate_lines ! 3) = Some (''Function'', [], ''bar()'')" by code_simp
  have b3: "extract_body ''Function'' duplicate_lines (3 + 1) = Inr ([], 4)" by code_simp
  have b4: "\<not> has_key ''Function'' (header_defs (state_after 3))" by code_simp
  have b5: "\<not> (curr_file_block (state_after 3) = None \<and> strict (state_after 3))" by code_simp
  have b6: "curr_section (state_after 3) = Some 1" by code_simp
  have b7: "1 < length (nodes (state_after 3))" by code_simp
  from b6 b7 have b6': "case curr_section (state_after 3) of None \<Rightarrow> True
      | Some sec \<Rightarrow> sec < length (nodes (state_after 3))" by simp
  have p1: "map_of (items_by_name (state_after 3)) ''bar()'' = Some 2" by code_simp
  have p2: "2 < length (nodes (state_after 3))" by code_simp
  have p3: "node_origin (nodes (state_after 3) ! 2) = \<lparr>origin_file = ''foo.scad'', origin_line = 2\<rparr>"
    by code_simp
  have m: "''Previous declaration of '' @ [CHR 0x60] @ ''bar()'' @ [CHR 0x60]
             @ '' at '' @ origin_file (node_origin (nodes (state_after 3) ! 2)) @ '':''
             @ str_of_nat (origin_line (node_origin (nodes (state_after 3) ! 2))) @ '', Redeclared:''
         = ''Previous declaration of '' @ [CHR 0x60] @ ''bar()'' @ [CHR 0x60]
             @ '' at foo.scad:2, Redeclared:''"
    unfolding p3 by code_simp
  from item_header_registers_or_rejects [OF b1 b2 b3 t b4 b5 b6', of no_files "''foo.scad''"] p1 p2
  have "\<exists>s'. parse_block no_files duplicate_lines 3 ''foo.scad'' (state_after 3) = Inr (s', 4)
         \<and> items_by_name s' = items_by_name (state_after 3)
         \<and> item_nodes s' = item_nodes (state_after 3)
         \<and> errorlog s' = errorlog (state_after 3) @
              [\<lparr>entry_file = ''foo.scad'', entry_line = 3 + 1, entry_block = ''Function'',
                entry_message = ''Previous declaration of '' @ [CHR 0x60] @ ''bar()'' @ [CHR 0x60]
                   @ '' at '' @ origin_file (node_origin (nodes (state_after 3) ! 2)) @ '':''
                   @ str_of_nat (origin_line (node_origin (nodes (state_after 3) ! 2))) @ '', Redeclared:'',
                entry_level = FAIL\<rparr>]"
    by blast
  then have r2: "\<exists>s'. parse_block no_files duplicate_lines 3 ''foo.scad'' (state_after 3) = Inr (s', 4)
         \<and> items_by_name s' = items_by_name (state_after 3)
         \<and> item_nodes s' = item_nodes (state_after 3)
         \<and> errorlog s' = errorlog (state_after 3) @
              [\<lparr>entry_file = ''foo.scad'', entry_line = 4, entry_block = ''Function'',
                entry_message = ''Previous declaration of '' @ [CHR 0x60] @ ''bar()'' @ [CHR 0x60]
                   @ '' at foo.scad:2, Redeclared:'',
                entry_level = FAIL\<rparr>]"
    unfolding m by simp
  have u: "(case parse_unit False duplicate_lines ''foo.scad'' of
         Inr s \<Rightarrow> map node_class (nodes s) = [FileBlock, SectionBlock, ItemBlock]
             \<and> item_nodes s = [(''Function'', ''bar()'', [], \<lparr>origin_file = ''foo.scad'', origin_line = 2\<rparr>)]
             \<and> node_parent (nodes s ! 2) = Some 1 \<and> node_children (nodes s ! 1) = [2]
             \<and> node_parent (nodes s ! 1) = Some 0 \<and> node_children (nodes s ! 0) = [1]
             \<and> items_by_name s = [(''bar()'', 2)]
             \<and> map entry_line (errorlog s) = [4] \<and> map entry_level (errorlog s) = [FAIL]
       | Inl _ \<Rightarrow> False)"
    by code_simp
  from a1 a2 a3 a4 a5 a6 a7 r1 b1 b2 b3 b4 b5 b6 b7 p1 p2 p3 r2 u show ?thesis by (intro conjI)
qed

end
